theory Spec2Isabelle
  imports Complex_Main "HOL-Library.Sublist" "HOL-Library.AList"
begin

section \<open>JavaScript values\<close>

text \<open>
  The extensions are JavaScript modules. Their data are JavaScript values: numbers
  (IEEE doubles, of which only the distinction between \<open>NaN\<close>, the infinities, zero
  and the other finite values matters here, so a finite number is a real), strings,
  arrays, plain objects (property lists in insertion order), and the functions and
  objects every plain object inherits from \<open>Object.prototype\<close>.
\<close>

datatype jsnum = NaN | PosInfinity | NegInfinity | Num real

datatype jsval =
    JUndefined
  | JNull
  | JBool bool
  | JNum jsnum
  | JStr string
  | JArr "jsval list"
  | JObj "(string \<times> jsval) list"
  | JBuiltin string

datatype error = SyntaxError | TypeError | NotModelled

text \<open>What \<open>if (v)\<close>, \<open>!v\<close> and \<open>v || d\<close> test: every object, the empty array
  included, is truthy; \<open>NaN\<close>, zero and the empty string are not.\<close>

fun truthy :: "jsval \<Rightarrow> bool" where
  "truthy JUndefined = False"
| "truthy JNull = False"
| "truthy (JBool b) = b"
| "truthy (JNum n) = (n \<noteq> NaN \<and> n \<noteq> Num 0)"
| "truthy (JStr s) = (s \<noteq> [])"
| "truthy (JArr xs) = True"
| "truthy (JObj kvs) = True"
| "truthy (JBuiltin f) = True"

definition js_or :: "jsval \<Rightarrow> jsval \<Rightarrow> jsval" where
  "js_or a b = (if truthy a then a else b)"

text \<open>The names a plain object \<open>{}\<close> inherits from \<open>Object.prototype\<close>. Reading
  one of them from an object that has no own property of that name yields the inherited
  function or object, never \<open>undefined\<close>. The objects read here get their properties by
  assignment, and an assignment never makes \<open>__proto__\<close> an own property.\<close>

definition Object_prototype_names :: "string list" where
  "Object_prototype_names =
     [''constructor'', ''__proto__'', ''hasOwnProperty'', ''isPrototypeOf'',
      ''propertyIsEnumerable'', ''toLocaleString'', ''toString'', ''valueOf'',
      ''__defineGetter__'', ''__defineSetter__'', ''__lookupGetter__'',
      ''__lookupSetter__'']"

definition js_get :: "(string \<rightharpoonup> 'a) \<Rightarrow> ('a \<Rightarrow> jsval) \<Rightarrow> string \<Rightarrow> jsval" where
  "js_get obj val k =
     (if k = ''__proto__'' then JBuiltin k
      else case obj k of
             Some v \<Rightarrow> val v
           | None \<Rightarrow> if k \<in> set Object_prototype_names then JBuiltin k else JUndefined)"

text \<open>Assigning \<open>obj[k] = v\<close> creates or overwrites the own property \<open>k\<close>, except
  for \<open>__proto__\<close>, whose setter never creates an own property.\<close>

definition js_set :: "(string \<rightharpoonup> 'a) \<Rightarrow> string \<Rightarrow> 'a \<Rightarrow> (string \<rightharpoonup> 'a)" where
  "js_set obj k v = (if k = ''__proto__'' then obj else obj(k \<mapsto> v))"

section \<open>Strings\<close>

text \<open>
  A string is a list of UTF-16 code units; the model has the 256 code units of Latin-1,
  one \<open>char\<close> each. On them \<open>toLowerCase\<close> moves \<open>A\<close>..\<open>Z\<close> and the accented
  capitals (code units 192 to 222 except the multiplication sign, 215) by 32;
  \<open>trim\<close> strips tab, line feed, vertical tab, form feed, carriage return, space and
  the no-break space (160) from both ends; \<open>includes\<close> is the substring test.
\<close>

definition toLowerCase_char :: "char \<Rightarrow> char" where
  "toLowerCase_char c =
     (let n = (of_char c :: nat)
      in if (65 \<le> n \<and> n \<le> 90) \<or> (192 \<le> n \<and> n \<le> 222 \<and> n \<noteq> 215)
         then char_of (n + 32) else c)"

definition toLowerCase :: "string \<Rightarrow> string" where
  "toLowerCase s = map toLowerCase_char s"

definition is_whitespace :: "char \<Rightarrow> bool" where
  "is_whitespace c = ((of_char c :: nat) \<in> {9, 10, 11, 12, 13, 32, 160})"

definition trim :: "string \<Rightarrow> string" where
  "trim s = rev (dropWhile is_whitespace (rev (dropWhile is_whitespace s)))"

fun js_includes :: "string \<Rightarrow> string \<Rightarrow> bool" where
  "js_includes [] t = (t = [])"
| "js_includes (c # s) t = (prefix t (c # s) \<or> js_includes s t)"

text \<open>\<open>s.split(d)\<close> for a one-character separator: never the empty array.\<close>

fun split_on :: "char \<Rightarrow> string \<Rightarrow> string list" where
  "split_on d [] = [[]]"
| "split_on d (c # s) =
     (let r = split_on d s in if c = d then [] # r else (c # hd r) # tl r)"

text \<open>A natural number in a template literal: its decimal digits.\<close>

fun decimal :: "nat \<Rightarrow> string" where
  "decimal n = (if n < 10 then [char_of (48 + n)] else decimal (n div 10) @ [char_of (48 + n mod 10)])"

section \<open>The Power LoRA widget: state\<close>

text \<open>
  One node of type \<open>PowerLoRALoaderWithTriggers\<close> together with the module-level
  \<open>triggerCache\<close> of \<^verbatim>\<open>powerLoraWidget.js\<close>, the requests the module has sent and
  the lines it has logged. \<open>node.widgets\<close> may be undefined; a widget's value is a
  string or undefined. \<open>node.loraRows\<close> is whatever value was last assigned to it.
  CSS and the canvas redraw flag are left out.
\<close>

record widget =
  w_name :: string
  w_value :: "string option"

datatype request =
    POST string "(string \<times> string) list"
  | GET string "(string \<times> string) list"

record rowEl =
  className :: string
  select_text :: jsval
  strength_value :: jsval
  trigger_text :: jsval
  trigger_shown :: bool

record node =
  triggerCache :: "string \<rightharpoonup> string"
  requests :: "request list"
  inflight :: "(nat \<times> string) list"
  console :: "string list"
  widgets :: "widget list option"
  loraRows :: jsval
  loraList :: "string list"
  triggerDisplays :: "nat \<rightharpoonup> jsval"
  rowEls :: "rowEl list"
  height :: nat

section \<open>Persisting the rows\<close>

definition find_widget :: "string \<Rightarrow> widget list option \<Rightarrow> widget option" where
  "find_widget nm ws = (case ws of None \<Rightarrow> None | Some l \<Rightarrow> List.find (\<lambda>w. w_name w = nm) l)"

fun set_widget_value :: "string \<Rightarrow> string \<Rightarrow> widget list \<Rightarrow> widget list" where
  "set_widget_value nm v [] = []"
| "set_widget_value nm v (w # ws) =
     (if w_name w = nm then w\<lparr>w_value := Some v\<rparr> # ws else w # set_widget_value nm v ws)"

text \<open>\<open>parseLoraData\<close>: \<open>JSON.parse\<close> is the runtime's; it is a parameter, with
  \<open>Inl\<close> for the exception it throws. The \<open>catch\<close> logs and resets.\<close>

definition parseLoraData :: "(string \<Rightarrow> error + jsval) \<Rightarrow> node \<Rightarrow> node" where
  "parseLoraData JSON_parse node =
     (case find_widget ''lora_data'' (widgets node) of
        None \<Rightarrow> node\<lparr>loraRows := JArr []\<rparr>
      | Some widget \<Rightarrow>
          (case w_value widget of
             None \<Rightarrow> node\<lparr>loraRows := JArr []\<rparr>
           | Some v \<Rightarrow>
               if v = [] \<or> v = ''[]'' then node\<lparr>loraRows := JArr []\<rparr>
               else (case JSON_parse v of
                       Inr parsed \<Rightarrow> node\<lparr>loraRows := parsed\<rparr>
                     | Inl e \<Rightarrow> node\<lparr>console := console node @ [''[PowerLoRA] Error parsing lora_data:''],
                                     loraRows := JArr []\<rparr>)))"

text \<open>\<open>syncToWidget\<close>: \<open>JSON.stringify\<close> is a parameter as well.\<close>

definition syncToWidget :: "(jsval \<Rightarrow> string) \<Rightarrow> node \<Rightarrow> node" where
  "syncToWidget JSON_stringify node =
     (case widgets node of
        None \<Rightarrow> node
      | Some ws \<Rightarrow> node\<lparr>widgets := Some (set_widget_value ''lora_data'' (JSON_stringify (loraRows node)) ws)\<rparr>)"

section \<open>JSON text\<close>

text \<open>
  \<open>JSON.stringify\<close> and \<open>JSON.parse\<close> of the runtime, on the values of the model.
  The conversion between a finite number and its decimal text is floating-point
  arithmetic and stays a parameter: \<open>Number_toString\<close> prints a finite number and
  \<open>StringToNumber\<close> reads a text of the JSON number grammar. Everything else is
  written out: the literals, the quoting of strings, arrays and objects.
  \<open>stringify_JSON\<close> and \<open>parse_JSON\<close> are what \<open>syncToWidget\<close> and
  \<open>parseLoraData\<close> are run with.
\<close>

definition dquote :: char where "dquote = CHR 0x22"

definition backslash :: char where "backslash = CHR 0x5C"

definition hexdigit :: "nat \<Rightarrow> char" where
  "hexdigit k = (if k < 10 then char_of (48 + k) else char_of (87 + k))"

text \<open>\<open>QuoteJSONString\<close>: the two-character escapes, \<open>\u00XX\<close> for the other
  control characters, every other code unit as it is.\<close>

definition escape_char :: "char \<Rightarrow> string" where
  "escape_char c =
     (if c = dquote then [backslash, dquote]
      else if c = backslash then [backslash, backslash]
      else if c = CHR 0x08 then [backslash, CHR ''b'']
      else if c = CHR 0x09 then [backslash, CHR ''t'']
      else if c = CHR 0x0A then [backslash, CHR ''n'']
      else if c = CHR 0x0C then [backslash, CHR ''f'']
      else if c = CHR 0x0D then [backslash, CHR ''r'']
      else if (of_char c :: nat) < 32
        then [backslash, CHR ''u'', CHR ''0'', CHR ''0'',
              hexdigit (of_char c div 16), hexdigit (of_char c mod 16)]
      else [c])"

definition quote :: "string \<Rightarrow> string" where
  "quote s = dquote # concat (map escape_char s) @ [dquote]"

fun join_commas :: "string list \<Rightarrow> string" where
  "join_commas [] = []"
| "join_commas [t] = t"
| "join_commas (t # u # ts) = t @ CHR '','' # join_commas (u # ts)"

text \<open>\<open>SerializeJSONProperty\<close>: \<open>None\<close> is the result \<open>undefined\<close>, which an array
  prints as \<open>null\<close> and an object leaves out with its key. \<open>NaN\<close> and the infinities
  print as \<open>null\<close>.\<close>

fun serialize :: "(real \<Rightarrow> string) \<Rightarrow> jsval \<Rightarrow> string option" where
  "serialize Number_toString JUndefined = None"
| "serialize Number_toString (JBuiltin f) = None"
| "serialize Number_toString JNull = Some ''null''"
| "serialize Number_toString (JBool b) = Some (if b then ''true'' else ''false'')"
| "serialize Number_toString (JNum n) =
     Some (case n of Num r \<Rightarrow> Number_toString r | _ \<Rightarrow> ''null'')"
| "serialize Number_toString (JStr s) = Some (quote s)"
| "serialize Number_toString (JArr xs) =
     Some (CHR ''['' # join_commas
             (map (\<lambda>x. case serialize Number_toString x of Some t \<Rightarrow> t | None \<Rightarrow> ''null'') xs)
           @ '']'')"
| "serialize Number_toString (JObj kvs) =
     Some (CHR ''{'' # join_commas
             (concat (map (\<lambda>kv. case serialize Number_toString (snd kv) of
                                   Some t \<Rightarrow> [quote (fst kv) @ CHR '':'' # t]
                                 | None \<Rightarrow> []) kvs))
           @ ''}'')"

text \<open>\<open>JSON.stringify(v)\<close> as the text \<open>syncToWidget\<close> stores. For \<open>undefined\<close> and
  functions the result is \<open>undefined\<close>, which as a widget value is as absent as the
  empty string.\<close>

definition stringify_JSON :: "(real \<Rightarrow> string) \<Rightarrow> jsval \<Rightarrow> string" where
  "stringify_JSON Number_toString v = (case serialize Number_toString v of Some t \<Rightarrow> t | None \<Rightarrow> [])"

text \<open>The JSON number grammar \<open>-? (0 | [1-9][0-9]*) (. [0-9]+)? ([eE] [+-]? [0-9]+)?\<close>
  as an automaton.\<close>

datatype numstate = NStart | NMinus | NZero | NInt | NDot | NFrac | NE | NESign | NExp

definition is_digit :: "char \<Rightarrow> bool" where
  "is_digit c = (48 \<le> (of_char c :: nat) \<and> (of_char c :: nat) \<le> 57)"

definition is_num_char :: "char \<Rightarrow> bool" where
  "is_num_char c = (is_digit c \<or> c = CHR ''-'' \<or> c = CHR ''+'' \<or> c = CHR ''.'' \<or> c = CHR ''e'' \<or> c = CHR ''E'')"

definition num_step :: "numstate \<Rightarrow> char \<Rightarrow> numstate option" where
  "num_step st c =
     (case st of
        NStart \<Rightarrow> if c = CHR ''-'' then Some NMinus else if c = CHR ''0'' then Some NZero
                   else if is_digit c then Some NInt else None
      | NMinus \<Rightarrow> if c = CHR ''0'' then Some NZero else if is_digit c then Some NInt else None
      | NZero \<Rightarrow> if c = CHR ''.'' then Some NDot else if c = CHR ''e'' \<or> c = CHR ''E'' then Some NE else None
      | NInt \<Rightarrow> if is_digit c then Some NInt else if c = CHR ''.'' then Some NDot
                 else if c = CHR ''e'' \<or> c = CHR ''E'' then Some NE else None
      | NDot \<Rightarrow> if is_digit c then Some NFrac else None
      | NFrac \<Rightarrow> if is_digit c then Some NFrac else if c = CHR ''e'' \<or> c = CHR ''E'' then Some NE else None
      | NE \<Rightarrow> if c = CHR ''+'' \<or> c = CHR ''-'' then Some NESign else if is_digit c then Some NExp else None
      | NESign \<Rightarrow> if is_digit c then Some NExp else None
      | NExp \<Rightarrow> if is_digit c then Some NExp else None)"

fun num_accepts :: "numstate \<Rightarrow> string \<Rightarrow> bool" where
  "num_accepts st [] = (st = NZero \<or> st = NInt \<or> st = NFrac \<or> st = NExp)"
| "num_accepts st (c # cs) = (case num_step st c of None \<Rightarrow> False | Some st' \<Rightarrow> num_accepts st' cs)"

definition json_number :: "string \<Rightarrow> bool" where
  "json_number t = num_accepts NStart t"

text \<open>The result of a parser: a value and the rest of the text, a rejection, or no
  recursion budget left.\<close>

datatype 'a parsed = Parsed 'a string | Rejected error | Exhausted

definition with_value :: "('a \<Rightarrow> 'b) \<Rightarrow> 'a parsed \<Rightarrow> 'b parsed" where
  "with_value g p = (case p of Parsed a rest \<Rightarrow> Parsed (g a) rest | Rejected e \<Rightarrow> Rejected e | Exhausted \<Rightarrow> Exhausted)"

definition json_ws :: "char \<Rightarrow> bool" where
  "json_ws c = (c = CHR '' '' \<or> c = CHR 0x09 \<or> c = CHR 0x0A \<or> c = CHR 0x0D)"

definition skip_ws :: "string \<Rightarrow> string" where
  "skip_ws s = dropWhile json_ws s"

definition hexval :: "char \<Rightarrow> nat option" where
  "hexval c =
     (let n = (of_char c :: nat) in
      if 48 \<le> n \<and> n \<le> 57 then Some (n - 48)
      else if 97 \<le> n \<and> n \<le> 102 then Some (n - 87)
      else if 65 \<le> n \<and> n \<le> 70 then Some (n - 55)
      else None)"

definition unescape :: "char \<Rightarrow> char option" where
  "unescape e =
     (if e = dquote then Some dquote
      else if e = backslash then Some backslash
      else if e = CHR ''/'' then Some (CHR ''/'')
      else if e = CHR ''b'' then Some (CHR 0x08)
      else if e = CHR ''f'' then Some (CHR 0x0C)
      else if e = CHR ''n'' then Some (CHR 0x0A)
      else if e = CHR ''r'' then Some (CHR 0x0D)
      else if e = CHR ''t'' then Some (CHR 0x09)
      else None)"

text \<open>The characters of a string after its opening quote, up to the closing one. A
  \<open>\uXXXX\<close> escape of a code unit beyond Latin-1 has no value in the model.\<close>

fun parse_chars :: "string \<Rightarrow> string parsed" where
  "parse_chars [] = Rejected SyntaxError"
| "parse_chars (c # cs) =
     (if c = dquote then Parsed [] cs
      else if c = backslash then
        (case cs of
           [] \<Rightarrow> Rejected SyntaxError
         | e # es \<Rightarrow>
             if e = CHR ''u'' then
               (case es of
                  h1 # h2 # h3 # h4 # rest \<Rightarrow>
                    (case (hexval h1, hexval h2, hexval h3, hexval h4) of
                       (Some a, Some b, Some c', Some d) \<Rightarrow>
                         if ((a * 16 + b) * 16 + c') * 16 + d < 256
                         then with_value ((#) (char_of (((a * 16 + b) * 16 + c') * 16 + d))) (parse_chars rest)
                         else Rejected NotModelled
                     | _ \<Rightarrow> Rejected SyntaxError)
                | _ \<Rightarrow> Rejected SyntaxError)
             else
               (case unescape e of
                  None \<Rightarrow> Rejected SyntaxError
                | Some ch \<Rightarrow> with_value ((#) ch) (parse_chars es)))
      else if (of_char c :: nat) < 32 then Rejected SyntaxError
      else with_value ((#) c) (parse_chars cs))"

definition parse_number :: "(string \<Rightarrow> jsnum) \<Rightarrow> string \<Rightarrow> jsval parsed" where
  "parse_number StringToNumber s =
     (if json_number (takeWhile is_num_char s)
      then Parsed (JNum (StringToNumber (takeWhile is_num_char s))) (dropWhile is_num_char s)
      else Rejected SyntaxError)"

definition parse_literal :: "string \<Rightarrow> jsval parsed" where
  "parse_literal s =
     (if take 4 s = ''null'' then Parsed JNull (drop 4 s)
      else if take 4 s = ''true'' then Parsed (JBool True) (drop 4 s)
      else if take 5 s = ''false'' then Parsed (JBool False) (drop 5 s)
      else Rejected SyntaxError)"

text \<open>An object gets its members in the order of the text, a repeated key keeping
  its place and taking the later value. Keys that are array indices would be
  enumerated first, in numeric order: such objects are not modelled.\<close>

definition is_array_index :: "string \<Rightarrow> bool" where
  "is_array_index k = (k \<noteq> [] \<and> list_all is_digit k \<and> (k = ''0'' \<or> hd k \<noteq> CHR ''0''))"

definition make_object :: "(string \<times> jsval) list \<Rightarrow> string \<Rightarrow> jsval parsed" where
  "make_object members rest =
     (if list_ex (\<lambda>kv. is_array_index (fst kv)) members then Rejected NotModelled
      else Parsed (JObj (foldl (\<lambda>obj kv. AList.update (fst kv) (snd kv) obj) [] members)) rest)"

text \<open>The recursive descent, with a budget of recursive calls.\<close>

fun parse_value :: "(string \<Rightarrow> jsnum) \<Rightarrow> nat \<Rightarrow> string \<Rightarrow> jsval parsed"
  and parse_elements :: "(string \<Rightarrow> jsnum) \<Rightarrow> nat \<Rightarrow> string \<Rightarrow> jsval list parsed"
  and parse_members :: "(string \<Rightarrow> jsnum) \<Rightarrow> nat \<Rightarrow> string \<Rightarrow> (string \<times> jsval) list parsed"
where
  "parse_value rd 0 s = Exhausted"
| "parse_value rd (Suc f) s =
     (case skip_ws s of
        [] \<Rightarrow> Rejected SyntaxError
      | c # cs \<Rightarrow>
          if c = dquote then with_value JStr (parse_chars cs)
          else if c = CHR ''['' then
            (case skip_ws cs of
               [] \<Rightarrow> Rejected SyntaxError
             | d # ds \<Rightarrow> if d = CHR '']'' then Parsed (JArr []) ds
                         else with_value JArr (parse_elements rd f cs))
          else if c = CHR ''{'' then
            (case skip_ws cs of
               [] \<Rightarrow> Rejected SyntaxError
             | d # ds \<Rightarrow> if d = CHR ''}'' then Parsed (JObj []) ds
                         else (case parse_members rd f cs of
                                 Parsed members rest \<Rightarrow> make_object members rest
                               | Rejected e \<Rightarrow> Rejected e
                               | Exhausted \<Rightarrow> Exhausted))
          else if c = CHR ''-'' \<or> is_digit c then parse_number rd (c # cs)
          else parse_literal (c # cs))"
| "parse_elements rd 0 s = Exhausted"
| "parse_elements rd (Suc f) s =
     (case parse_value rd f s of
        Parsed v rest \<Rightarrow>
          (case skip_ws rest of
             [] \<Rightarrow> Rejected SyntaxError
           | d # ds \<Rightarrow>
               if d = CHR '','' then with_value ((#) v) (parse_elements rd f ds)
               else if d = CHR '']'' then Parsed [v] ds
               else Rejected SyntaxError)
      | Rejected e \<Rightarrow> Rejected e
      | Exhausted \<Rightarrow> Exhausted)"
| "parse_members rd 0 s = Exhausted"
| "parse_members rd (Suc f) s =
     (case skip_ws s of
        [] \<Rightarrow> Rejected SyntaxError
      | c # cs \<Rightarrow>
          if c = dquote then
            (case parse_chars cs of
               Parsed k rest \<Rightarrow>
                 (case skip_ws rest of
                    [] \<Rightarrow> Rejected SyntaxError
                  | d # ds \<Rightarrow>
                      if d = CHR '':'' then
                        (case parse_value rd f ds of
                           Parsed v rest' \<Rightarrow>
                             (case skip_ws rest' of
                                [] \<Rightarrow> Rejected SyntaxError
                              | d' # ds' \<Rightarrow>
                                  if d' = CHR '','' then with_value ((#) (k, v)) (parse_members rd f ds')
                                  else if d' = CHR ''}'' then Parsed [(k, v)] ds'
                                  else Rejected SyntaxError)
                         | Rejected e \<Rightarrow> Rejected e
                         | Exhausted \<Rightarrow> Exhausted)
                      else Rejected SyntaxError)
             | Rejected e \<Rightarrow> Rejected e
             | Exhausted \<Rightarrow> Exhausted)
          else Rejected SyntaxError)"

text \<open>\<open>JSON.parse(s)\<close>: one value, then nothing but whitespace. The budget is never
  used up: every two recursive calls consume a character.\<close>

definition parse_JSON :: "(string \<Rightarrow> jsnum) \<Rightarrow> string \<Rightarrow> error + jsval" where
  "parse_JSON StringToNumber s =
     (case parse_value StringToNumber (2 * length s + 2) s of
        Parsed v rest \<Rightarrow> if skip_ws rest = [] then Inr v else Inl SyntaxError
      | Rejected e \<Rightarrow> Inl e
      | Exhausted \<Rightarrow> Inl NotModelled)"

text \<open>The values that have a JSON text of their own: no \<open>undefined\<close>, no function,
  no \<open>NaN\<close> or infinity; every finite number is one that the runtime prints as a JSON
  number and reads back as the same number; the keys of an object are distinct and not
  array indices.\<close>

fun representable :: "(real \<Rightarrow> string) \<Rightarrow> (string \<Rightarrow> jsnum) \<Rightarrow> jsval \<Rightarrow> bool" where
  "representable Number_toString StringToNumber JUndefined = False"
| "representable Number_toString StringToNumber (JBuiltin f) = False"
| "representable Number_toString StringToNumber JNull = True"
| "representable Number_toString StringToNumber (JBool b) = True"
| "representable Number_toString StringToNumber (JNum n) =
     (case n of
        Num r \<Rightarrow> json_number (Number_toString r) \<and> StringToNumber (Number_toString r) = Num r
      | _ \<Rightarrow> False)"
| "representable Number_toString StringToNumber (JStr s) = True"
| "representable Number_toString StringToNumber (JArr xs) =
     list_all (representable Number_toString StringToNumber) xs"
| "representable Number_toString StringToNumber (JObj kvs) =
     (distinct (map fst kvs) \<and> \<not> list_ex (\<lambda>kv. is_array_index (fst kv)) kvs
      \<and> list_all (\<lambda>kv. representable Number_toString StringToNumber (snd kv)) kvs)"

text \<open>A row of the widget: an object with the fields \<open>lora\<close> (a string),
  \<open>strength\<close> (a finite number that the runtime prints and reads back) and \<open>on\<close> (a
  boolean), in any order.\<close>

definition is_row :: "(real \<Rightarrow> string) \<Rightarrow> (string \<Rightarrow> jsnum) \<Rightarrow> jsval \<Rightarrow> bool" where
  "is_row Number_toString StringToNumber row =
     (case row of
        JObj kvs \<Rightarrow>
          distinct (map fst kvs) \<and> set (map fst kvs) = {''lora'', ''strength'', ''on''}
          \<and> (case map_of kvs ''lora'' of Some (JStr l) \<Rightarrow> True | _ \<Rightarrow> False)
          \<and> (case map_of kvs ''strength'' of
                 Some (JNum (Num r)) \<Rightarrow>
                   json_number (Number_toString r) \<and> StringToNumber (Number_toString r) = Num r
               | _ \<Rightarrow> False)
          \<and> (case map_of kvs ''on'' of Some (JBool b) \<Rightarrow> True | _ \<Rightarrow> False)
      | _ \<Rightarrow> False)"

text \<open>The recursion budget that parsing the text of a value takes.\<close>

fun elems_need :: "nat list \<Rightarrow> nat" where
  "elems_need [] = 0"
| "elems_need (n # ns) = Suc (max n (elems_need ns))"

fun need :: "jsval \<Rightarrow> nat" where
  "need (JArr xs) = Suc (elems_need (map need xs))"
| "need (JObj kvs) = Suc (elems_need (map (\<lambda>kv. need (snd kv)) kvs))"
| "need v = Suc 0"

text \<open>The text of a value inside an array, and what may follow a number.\<close>

definition text_of :: "(real \<Rightarrow> string) \<Rightarrow> jsval \<Rightarrow> string" where
  "text_of Number_toString v = (case serialize Number_toString v of Some t \<Rightarrow> t | None \<Rightarrow> ''null'')"

definition ends_number :: "string \<Rightarrow> bool" where
  "ends_number rest = (case rest of [] \<Rightarrow> True | c # cs \<Rightarrow> \<not> is_num_char c)"

definition value_start :: "char \<Rightarrow> bool" where
  "value_start c =
     (c = dquote \<or> c = CHR ''['' \<or> c = CHR ''{'' \<or> c = CHR ''-'' \<or> is_digit c
      \<or> c = CHR ''n'' \<or> c = CHR ''t'' \<or> c = CHR ''f'')"

section \<open>Trigger words\<close>

text \<open>
  The answer of the backend to one request: the request fails (\<open>fetch\<close> or
  \<open>response.json()\<close> rejects, with a message), or a response arrives with its
  \<open>ok\<close> flag and its decoded body. For \<^verbatim>\<open>/boudoir/lora-trigger\<close> the body is
  \<open>{trigger_word?: string}\<close>: \<open>None\<close> is the absent field.
\<close>

datatype 'a response = Failed string | Replied bool 'a

text \<open>An \<open>async\<close> function runs up to its first \<open>await\<close> when it is called, and
  the rest when the response arrives: it is either done, or waiting for the answer to
  the request it has just sent.\<close>

datatype 'a step = Done 'a | Await request 'a

text \<open>\<open>updateTriggerDisplay\<close>: the element \<open>trigger-index\<close> is the badge of the row
  rendered at \<open>index\<close>, if that row is rendered (the container is in the document and
  this is the only such node).\<close>

definition updateTriggerDisplay :: "nat \<Rightarrow> jsval \<Rightarrow> node \<Rightarrow> node" where
  "updateTriggerDisplay index trigger node =
     (if index < length (rowEls node)
      then node\<lparr>rowEls := (rowEls node)
             [index := (rowEls node ! index)\<lparr>trigger_text := trigger, trigger_shown := truthy trigger\<rparr>]\<rparr>
      else node)"

definition lora_trigger_request :: "string \<Rightarrow> request" where
  "lora_trigger_request loraName = POST ''/boudoir/lora-trigger'' [(''lora_name'', loraName)]"

text \<open>\<open>fetchTriggerWord\<close> of \<^verbatim>\<open>powerLoraWidget.js\<close>, up to the \<open>await\<close>.\<close>

definition fetchTriggerWord_begin :: "nat \<Rightarrow> string \<Rightarrow> node \<Rightarrow> node step" where
  "fetchTriggerWord_begin index loraName node =
     (if loraName = [] \<or> loraName = ''None'' then
        Done (updateTriggerDisplay index (JStr [])
                (node\<lparr>triggerDisplays := (triggerDisplays node)(index \<mapsto> JStr [])\<rparr>))
      else
        let cached = js_get (triggerCache node) JStr loraName in
        if truthy cached then
          Done (updateTriggerDisplay index cached
                  (node\<lparr>triggerDisplays := (triggerDisplays node)(index \<mapsto> cached)\<rparr>))
        else
          Await (lora_trigger_request loraName)
                (node\<lparr>requests := requests node @ [lora_trigger_request loraName]\<rparr>))"

text \<open>... and from the \<open>await\<close> on, given the answer.\<close>

definition fetchTriggerWord_resume :: "string option response \<Rightarrow> nat \<Rightarrow> string \<Rightarrow> node \<Rightarrow> node" where
  "fetchTriggerWord_resume answer index loraName node =
     (case answer of
        Failed msg \<Rightarrow> node\<lparr>console := console node @ [''[PowerLoRA] Could not fetch trigger:'']\<rparr>
      | Replied ok trigger_word \<Rightarrow>
          if ok then
            (case trigger_word of
               None \<Rightarrow> node
             | Some tw \<Rightarrow>
                 if tw \<noteq> [] then
                   let trigger = trim tw in
                   updateTriggerDisplay index (JStr trigger)
                     (node\<lparr>triggerCache := js_set (triggerCache node) loraName trigger,
                           triggerDisplays := (triggerDisplays node)(index \<mapsto> JStr trigger)\<rparr>)
                 else node)
          else node)"

text \<open>A call that is awaited: the answer of the network arrives before anything else
  happens.\<close>

definition fetchTriggerWord ::
  "(request \<Rightarrow> string option response) \<Rightarrow> nat \<Rightarrow> string \<Rightarrow> node \<Rightarrow> node" where
  "fetchTriggerWord net index loraName node =
     (case fetchTriggerWord_begin index loraName node of
        Done node' \<Rightarrow> node'
      | Await req node' \<Rightarrow> fetchTriggerWord_resume (net req) index loraName node')"

text \<open>A call that is not awaited (as in \<open>renderRows\<close>) leaves its request in flight;
  \<open>deliver\<close> is the arrival of the answer to the \<open>k\<close>-th request in flight.\<close>

definition fetchTriggerWord_fire :: "nat \<Rightarrow> string \<Rightarrow> node \<Rightarrow> node" where
  "fetchTriggerWord_fire index loraName node =
     (case fetchTriggerWord_begin index loraName node of
        Done node' \<Rightarrow> node'
      | Await req node' \<Rightarrow> node'\<lparr>inflight := inflight node' @ [(index, loraName)]\<rparr>)"

definition deliver :: "nat \<Rightarrow> string option response \<Rightarrow> node \<Rightarrow> node" where
  "deliver k answer node =
     (if k < length (inflight node)
      then fetchTriggerWord_resume answer (fst (inflight node ! k)) (snd (inflight node ! k))
             (node\<lparr>inflight := take k (inflight node) @ drop (Suc k) (inflight node)\<rparr>)
      else node)"

subsection \<open>The Multi LoRA widget\<close>

text \<open>
  \<^verbatim>\<open>part_000\<close> is the module of the node type \<open>MultiLoRALoaderWithTriggers\<close>, with a
  \<open>triggerCache\<close> of its own. Its \<open>fetchTriggerWord\<close> takes the name of the combo widget
  (\<open>lora_1\<close>, ...) and keys \<open>node.triggerDisplays\<close> by \<open>widgetName.split("_")[1]\<close>,
  which as a property key is \<open>undefined\<close> when the name has no underscore.
\<close>

record multi_node =
  m_triggerCache :: "string \<rightharpoonup> string"
  m_requests :: "request list"
  m_console :: "string list"
  m_triggerDisplays :: "string \<rightharpoonup> jsval"
  m_dirty :: bool

definition slot_key :: "string \<Rightarrow> string" where
  "slot_key widgetName =
     (case split_on CHR ''_'' widgetName of
        a # num # rest \<Rightarrow> num
      | _ \<Rightarrow> ''undefined'')"

definition multi_fetchTriggerWord ::
  "(request \<Rightarrow> string option response) \<Rightarrow> string \<Rightarrow> string \<Rightarrow> multi_node \<Rightarrow> multi_node" where
  "multi_fetchTriggerWord net widgetName loraName node =
     (let num = slot_key widgetName in
      if loraName = [] \<or> loraName = ''None'' then
        node\<lparr>m_triggerDisplays := js_set (m_triggerDisplays node) num (JStr []), m_dirty := True\<rparr>
      else
        let cached = js_get (m_triggerCache node) JStr loraName in
        if truthy cached then
          node\<lparr>m_triggerDisplays := js_set (m_triggerDisplays node) num cached, m_dirty := True\<rparr>
        else
          let node1 = node\<lparr>m_requests := m_requests node @ [lora_trigger_request loraName]\<rparr>;
              node2 =
                (case net (lora_trigger_request loraName) of
                   Failed msg \<Rightarrow>
                     node1\<lparr>m_console := m_console node1 @ [''[MultiLoRA] Could not fetch trigger:'']\<rparr>
                 | Replied ok trigger_word \<Rightarrow>
                     if ok then
                       (case trigger_word of
                          None \<Rightarrow> node1
                        | Some tw \<Rightarrow>
                            if tw \<noteq> [] then
                              let trigger = trim tw in
                              node1\<lparr>m_triggerCache := js_set (m_triggerCache node1) loraName trigger,
                                    m_triggerDisplays := js_set (m_triggerDisplays node1) num (JStr trigger)\<rparr>
                            else node1)
                     else node1)
          in node2\<lparr>m_dirty := True\<rparr>)"

section \<open>Folder contents\<close>

text \<open>
  The LoRA folder loader (the second module of \<^verbatim>\<open>ollamaEnhancer.js\<close>) with its
  \<open>loraCache\<close>. The body of \<^verbatim>\<open>/boudoir/loras-in-folder\<close> is \<open>{loras: string[]}\<close>,
  \<open>None\<close> being the absent field. The \<open>ok\<close> flag is not looked at.
\<close>

record folder_loader =
  loraCache :: "string \<rightharpoonup> string list"
  f_requests :: "request list"
  f_console :: "string list"

definition js_strings :: "string list \<Rightarrow> jsval" where
  "js_strings xs = JArr (map JStr xs)"

definition loras_in_folder_request :: "string \<Rightarrow> request" where
  "loras_in_folder_request folder = GET ''/boudoir/loras-in-folder'' [(''folder'', folder)]"

definition fetchLorasInFolder ::
  "(request \<Rightarrow> string list option response) \<Rightarrow> string \<Rightarrow> folder_loader \<Rightarrow> jsval \<times> folder_loader" where
  "fetchLorasInFolder net folder st =
     (if truthy (js_get (loraCache st) js_strings folder) then
        (js_get (loraCache st) js_strings folder, st)
      else
        let st1 = st\<lparr>f_requests := f_requests st @ [loras_in_folder_request folder]\<rparr> in
        (case net (loras_in_folder_request folder) of
           Failed msg \<Rightarrow>
             (JArr [], st1\<lparr>f_console := f_console st1 @ [''Error fetching loras for folder:'']\<rparr>)
         | Replied ok loras \<Rightarrow>
             let st2 = st1\<lparr>loraCache := js_set (loraCache st1) folder
                                             (case loras of Some xs \<Rightarrow> xs | None \<Rightarrow> [])\<rparr>
             in (js_get (loraCache st2) js_strings folder, st2)))"

section \<open>Rows of the Power LoRA widget\<close>

text \<open>
  Reading \<open>row.on\<close>, \<open>row.lora\<close> or \<open>row.strength\<close>: a \<open>TypeError\<close> on \<open>null\<close>
  and \<open>undefined\<close>, the property of an object, and \<open>undefined\<close> on every other value
  (no primitive, array or function has a property of these names). \<open>row_prop\<close> is
  used for these three names only.
\<close>

definition row_prop :: "jsval \<Rightarrow> string \<Rightarrow> error + jsval" where
  "row_prop row k =
     (case row of
        JObj kvs \<Rightarrow> Inr (js_get (map_of kvs) id k)
      | JUndefined \<Rightarrow> Inl TypeError
      | JNull \<Rightarrow> Inl TypeError
      | _ \<Rightarrow> Inr JUndefined)"

definition createRowElement :: "nat \<Rightarrow> jsval \<Rightarrow> node \<Rightarrow> error + rowEl" where
  "createRowElement index row node =
     (case row_prop row ''on'' of
        Inl e \<Rightarrow> Inl e
      | Inr on \<Rightarrow>
     (case row_prop row ''lora'' of
        Inl e \<Rightarrow> Inl e
      | Inr lora \<Rightarrow>
     (case row_prop row ''strength'' of
        Inl e \<Rightarrow> Inl e
      | Inr strength \<Rightarrow>
          let shown = (case triggerDisplays node index of Some d \<Rightarrow> d | None \<Rightarrow> JUndefined) in
          Inr \<lparr>className = ''power-lora-row'' @ (if truthy on then [] else '' disabled''),
               select_text = js_or lora (JStr ''Select LoRA...''),
               strength_value = strength,
               trigger_text = js_or shown (JStr []),
               trigger_shown = truthy shown\<rparr>)))"

text \<open>The body of the \<open>forEach\<close> of \<open>renderRows\<close>, from row \<open>index\<close> on. A
  \<open>row.lora\<close> that is truthy and not a string would be coerced to a property key and
  a request body: that is not modelled.\<close>

fun renderRows_from :: "nat \<Rightarrow> jsval list \<Rightarrow> node \<Rightarrow> error + node" where
  "renderRows_from index [] node = Inr node"
| "renderRows_from index (row # rows) node =
     (case createRowElement index row node of
        Inl e \<Rightarrow> Inl e
      | Inr el \<Rightarrow>
          let node1 = node\<lparr>rowEls := rowEls node @ [el]\<rparr> in
          (case row_prop row ''lora'' of
             Inl e \<Rightarrow> Inl e
           | Inr lora \<Rightarrow>
               if truthy lora \<and> lora \<noteq> JStr ''None'' then
                 (case lora of
                    JStr loraName \<Rightarrow>
                      renderRows_from (Suc index) rows (fetchTriggerWord_fire index loraName node1)
                  | _ \<Rightarrow> Inl NotModelled)
               else renderRows_from (Suc index) rows node1))"

definition renderRows :: "node \<Rightarrow> error + node" where
  "renderRows node =
     (case loraRows node of
        JArr rows \<Rightarrow> renderRows_from 0 rows (node\<lparr>rowEls := []\<rparr>)
      | _ \<Rightarrow> Inl TypeError)"

definition updateNodeSize :: "node \<Rightarrow> error + node" where
  "updateNodeSize node =
     (case loraRows node of
        JArr rows \<Rightarrow> Inr (node\<lparr>height := max (100 + length rows * 36) 120\<rparr>)
      | _ \<Rightarrow> Inl NotModelled)"

definition new_row :: jsval where
  "new_row = JObj [(''lora'', JStr []), (''strength'', JNum (Num 1)), (''on'', JBool True)]"

text \<open>The click handlers of the add button and of the delete button of the row
  rendered at \<open>index\<close>. \<open>push\<close> and \<open>splice\<close> exist on arrays only.\<close>

definition addBtn_onclick :: "(jsval \<Rightarrow> string) \<Rightarrow> node \<Rightarrow> error + node" where
  "addBtn_onclick JSON_stringify node =
     (case loraRows node of
        JArr rows \<Rightarrow>
          (case renderRows (syncToWidget JSON_stringify (node\<lparr>loraRows := JArr (rows @ [new_row])\<rparr>)) of
             Inl e \<Rightarrow> Inl e
           | Inr node' \<Rightarrow> updateNodeSize node')
      | _ \<Rightarrow> Inl TypeError)"

definition deleteBtn_onclick :: "(jsval \<Rightarrow> string) \<Rightarrow> nat \<Rightarrow> node \<Rightarrow> error + node" where
  "deleteBtn_onclick JSON_stringify index node =
     (case loraRows node of
        JArr rows \<Rightarrow>
          (case renderRows (syncToWidget JSON_stringify
                  (node\<lparr>loraRows := JArr (take index rows @ drop (Suc index) rows),
                        triggerDisplays := (triggerDisplays node)(index := None)\<rparr>)) of
             Inl e \<Rightarrow> Inl e
           | Inr node' \<Rightarrow> updateNodeSize node')
      | _ \<Rightarrow> Inl TypeError)"

text \<open>The \<open>change\<close> handler of the strength field of the row rendered at \<open>index\<close>;
  \<open>parseFloat\<close> is the runtime's. The module is strict code: assigning a property of
  a primitive throws. A property assigned to an array is not modelled.\<close>

definition strength_onchange ::
  "(string \<Rightarrow> jsnum) \<Rightarrow> (jsval \<Rightarrow> string) \<Rightarrow> nat \<Rightarrow> string \<Rightarrow> node \<Rightarrow> error + node" where
  "strength_onchange parseFloat JSON_stringify index target_value node =
     (case loraRows node of
        JArr rows \<Rightarrow>
          if index < length rows then
            (case rows ! index of
               JObj kvs \<Rightarrow>
                 Inr (syncToWidget JSON_stringify
                        (node\<lparr>loraRows := JArr (rows[index := JObj (AList.update ''strength''
                            (js_or (JNum (parseFloat target_value)) (JNum (Num 1))) kvs)])\<rparr>))
             | JArr xs \<Rightarrow> Inl NotModelled
             | JBuiltin f \<Rightarrow> Inl NotModelled
             | _ \<Rightarrow> Inl TypeError)
          else Inl NotModelled
      | _ \<Rightarrow> Inl NotModelled)"

section \<open>The dropdown\<close>

text \<open>\<open>renderItems\<close> of \<open>showLoraDropdown\<close>: the items it puts into the list, in
  order: the \<open>None\<close> item, the candidates that pass the filter (at most 50 of them), and
  the note on how many more there are.\<close>

datatype item = NoneItem | LoraItem string | MoreItem nat

definition passes :: "string \<Rightarrow> string \<Rightarrow> bool" where
  "passes filterLower lora = js_includes (toLowerCase lora) filterLower"

definition renderItems :: "node \<Rightarrow> string \<Rightarrow> item list" where
  "renderItems node flt =
     (let filterLower = toLowerCase flt;
          filtered = filter (passes filterLower) (loraList node)
      in NoneItem # map LoraItem (take 50 filtered)
           @ (if length filtered > 50 then [MoreItem (length filtered - 50)] else []))"

definition item_text :: "item \<Rightarrow> string" where
  "item_text it =
     (case it of
        NoneItem \<Rightarrow> ''None''
      | LoraItem lora \<Rightarrow> lora
      | MoreItem n \<Rightarrow> ''... '' @ decimal n @ '' more (type to filter)'')"

section \<open>Prompt search\<close>

text \<open>
  \<^verbatim>\<open>part_001\<close> is the module of the node type \<open>BoudoirPromptSearchWidget\<close>. The body
  of \<^verbatim>\<open>/boudoir/prompt-search\<close> is \<open>{success: bool, prompts: SearchResult[]}\<close>, the
  \<open>prompts\<close> field possibly absent. \<open>showResultsDialog\<close> replaces the dialog by one
  with the given title and results.
\<close>

record prompt =
  p_id :: string
  p_category :: string
  p_text :: string
  p_use_count :: nat

record search_data =
  success :: bool
  prompts :: "prompt list option"

record search_ui =
  s_requests :: "request list"
  s_console :: "string list"
  dialog :: "(string \<times> prompt list) option"

definition showResultsDialog :: "prompt list \<Rightarrow> string \<Rightarrow> search_ui \<Rightarrow> search_ui" where
  "showResultsDialog ps title ui = ui\<lparr>dialog := Some (title, ps)\<rparr>"

definition prompt_search_request :: "string \<Rightarrow> string \<Rightarrow> request" where
  "prompt_search_request query category =
     GET ''/boudoir/prompt-search''
       ([(''q'', query), (''limit'', ''50'')]
        @ (if category \<noteq> ''any'' then [(''category'', category)] else []))"

definition performSearch ::
  "(request \<Rightarrow> search_data response) \<Rightarrow> string \<Rightarrow> string \<Rightarrow> search_ui \<Rightarrow> search_ui" where
  "performSearch net query category ui =
     (if trim query = [] then showResultsDialog [] ''Please enter a search term'' ui
      else
        let ui1 = ui\<lparr>s_requests := s_requests ui @ [prompt_search_request query category]\<rparr> in
        (case net (prompt_search_request query category) of
           Failed msg \<Rightarrow>
             showResultsDialog [] (''Error: '' @ msg)
               (ui1\<lparr>s_console := s_console ui1 @ [''[BoudoirPromptSearch] Error:'']\<rparr>)
         | Replied ok data \<Rightarrow>
             (case prompts data of
                None \<Rightarrow> showResultsDialog [] ''No prompts found'' ui1
              | Some ps \<Rightarrow>
                  if \<not> success data \<or> length ps = 0
                  then showResultsDialog [] ''No prompts found'' ui1
                  else showResultsDialog ps (''Found '' @ decimal (length ps) @ '' prompts'') ui1)))"

section \<open>Selecting a LoRA, reading a row\<close>

text \<open>The click handlers of the items of the dropdown opened from the row rendered at
  \<open>index\<close>: a candidate, and the \<open>None\<close> item. Neither call of \<open>fetchTriggerWord\<close>
  is awaited.\<close>

definition loraItem_onclick :: "(jsval \<Rightarrow> string) \<Rightarrow> nat \<Rightarrow> string \<Rightarrow> node \<Rightarrow> error + node" where
  "loraItem_onclick JSON_stringify index lora node =
     (case loraRows node of
        JArr rows \<Rightarrow>
          if index < length rows \<and> index < length (rowEls node) then
            (case rows ! index of
               JObj kvs \<Rightarrow>
                 Inr (fetchTriggerWord_fire index lora
                        (syncToWidget JSON_stringify
                           (node\<lparr>loraRows := JArr (rows[index := JObj (AList.update ''lora'' (JStr lora) kvs)]),
                                 rowEls := (rowEls node)[index := (rowEls node ! index)\<lparr>select_text := JStr lora\<rparr>]\<rparr>)))
             | JArr xs \<Rightarrow> Inl NotModelled
             | JBuiltin f \<Rightarrow> Inl NotModelled
             | _ \<Rightarrow> Inl TypeError)
          else Inl NotModelled
      | _ \<Rightarrow> Inl NotModelled)"

definition noneItem_onclick :: "(jsval \<Rightarrow> string) \<Rightarrow> nat \<Rightarrow> node \<Rightarrow> error + node" where
  "noneItem_onclick JSON_stringify index node =
     (case loraRows node of
        JArr rows \<Rightarrow>
          if index < length rows \<and> index < length (rowEls node) then
            (case rows ! index of
               JObj kvs \<Rightarrow>
                 Inr (syncToWidget JSON_stringify
                        ((node\<lparr>loraRows := JArr (rows[index := JObj (AList.update ''lora'' (JStr []) kvs)]),
                               triggerDisplays := (triggerDisplays node)(index \<mapsto> JStr []),
                               rowEls := (rowEls node)[index := (rowEls node ! index)
                                   \<lparr>select_text := JStr ''Select LoRA...'',
                                    trigger_text := JStr [], trigger_shown := False\<rparr>]\<rparr>)))
             | JArr xs \<Rightarrow> Inl NotModelled
             | JBuiltin f \<Rightarrow> Inl NotModelled
             | _ \<Rightarrow> Inl TypeError)
          else Inl NotModelled
      | _ \<Rightarrow> Inl NotModelled)"

text \<open>\<open>node.loraRows[index].strength\<close>.\<close>

definition row_strength :: "node \<Rightarrow> nat \<Rightarrow> error + jsval" where
  "row_strength node index =
     (case loraRows node of
        JArr rows \<Rightarrow> if index < length rows then row_prop (rows ! index) ''strength'' else Inl TypeError
      | _ \<Rightarrow> Inl NotModelled)"

text \<open>Running one handler after another, as long as none throws.\<close>

definition and_then :: "error + 'a \<Rightarrow> ('a \<Rightarrow> error + 'b) \<Rightarrow> error + 'b" where
  "and_then r f = (case r of Inl e \<Rightarrow> Inl e | Inr a \<Rightarrow> f a)"

text \<open>What the trigger badges of the rendered rows show: text and visibility.\<close>

definition badges :: "node \<Rightarrow> (jsval \<times> bool) list" where
  "badges node = map (\<lambda>el. (trigger_text el, trigger_shown el)) (rowEls node)"

section \<open>Concrete states and runtimes\<close>

text \<open>The persisted text of a node: \<open>widget?.value\<close> for the \<open>lora_data\<close> widget.\<close>

definition persisted_text :: "node \<Rightarrow> string option" where
  "persisted_text node =
     (case find_widget ''lora_data'' (widgets node) of
        None \<Rightarrow> None
      | Some widget \<Rightarrow> w_value widget)"

text \<open>The node as \<open>onNodeCreated\<close> leaves it, in a module that has not done anything
  yet.\<close>

definition created :: "widget list option \<Rightarrow> node" where
  "created ws =
     \<lparr>triggerCache = Map.empty, requests = [], inflight = [], console = [],
      widgets = ws, loraRows = JArr [], loraList = [], triggerDisplays = Map.empty,
      rowEls = [], height = 0\<rparr>"

definition lora_data_widget :: "string option \<Rightarrow> widget" where
  "lora_data_widget v = \<lparr>w_name = ''lora_data'', w_value = v\<rparr>"

text \<open>A few points of the graphs of \<open>JSON.stringify\<close> and \<open>JSON.parse\<close>, for
  examples.\<close>

definition sample_rows :: jsval where
  "sample_rows =
     JArr [JObj [(''lora'', JStr ''a.safetensors''), (''strength'', JNum (Num 1)), (''on'', JBool True)]]"

definition sample_text :: string where
  \<open>sample_text = ''[{"lora":"a.safetensors","strength":1,"on":true}]''\<close>

definition sample_JSON_stringify :: "jsval \<Rightarrow> string" where
  "sample_JSON_stringify v =
     (if v = JArr [] then ''[]'' else if v = sample_rows then sample_text else ''null'')"

definition sample_JSON_parse :: "string \<Rightarrow> error + jsval" where
  "sample_JSON_parse s =
     (if s = ''[]'' then Inr (JArr [])
      else if s = sample_text then Inr sample_rows
      else if s = ''{}'' then Inr (JObj [])
      else if s = ''7'' then Inr (JNum (Num 7))
      else if s = ''null'' then Inr JNull
      else Inl SyntaxError)"

text \<open>A backend that knows one trigger word, and one that lists one folder.\<close>

definition sample_trigger_network :: "request \<Rightarrow> string option response" where
  "sample_trigger_network req =
     (if req = lora_trigger_request ''a.safetensors'' then Replied True (Some '' neon glow '')
      else Replied True None)"

definition sample_folder_network :: "request \<Rightarrow> string list option response" where
  "sample_folder_network req =
     (if req = loras_in_folder_request ''styles'' then Replied True (Some [''styles/a.safetensors''])
      else Replied True (Some []))"

text \<open>The Multi LoRA node as its \<open>onNodeCreated\<close> leaves it, and the folder loader
  when its module is loaded.\<close>

definition multi_created :: multi_node where
  "multi_created =
     \<lparr>m_triggerCache = Map.empty, m_requests = [], m_console = [],
      m_triggerDisplays = Map.empty, m_dirty = False\<rparr>"

definition folder_loader_start :: folder_loader where
  "folder_loader_start = \<lparr>loraCache = Map.empty, f_requests = [], f_console = []\<rparr>"

text \<open>A few points of the graph of \<open>parseFloat\<close>.\<close>

definition sample_parseFloat :: "string \<Rightarrow> jsnum" where
  "sample_parseFloat s =
     (if s = ''0'' then Num 0
      else if s = ''0.5'' then Num (1 / 2)
      else if s = ''2'' then Num 2
      else NaN)"

text \<open>A backend that knows the trigger words of two LoRAs.\<close>

definition two_trigger_network :: "request \<Rightarrow> string option response" where
  "two_trigger_network req =
     (if req = lora_trigger_request ''a.safetensors'' then Replied True (Some ''alpha'')
      else if req = lora_trigger_request ''b.safetensors'' then Replied True (Some ''beta'')
      else Replied True None)"

text \<open>A session: on a new node with its \<open>lora_data\<close> widget, two rows are added,
  \<open>a.safetensors\<close> is selected in the first and \<open>b.safetensors\<close> in the second, each
  answer arriving before the next click.\<close>

definition two_rows_session :: "(jsval \<Rightarrow> string) \<Rightarrow> error + node" where
  "two_rows_session JSON_stringify =
     and_then (and_then (and_then
       (addBtn_onclick JSON_stringify (created (Some [lora_data_widget None])))
       (addBtn_onclick JSON_stringify))
       (\<lambda>node. and_then (loraItem_onclick JSON_stringify 0 ''a.safetensors'' node)
          (\<lambda>node. Inr (deliver 0 (two_trigger_network (lora_trigger_request ''a.safetensors'')) node))))
       (\<lambda>node. and_then (loraItem_onclick JSON_stringify 1 ''b.safetensors'' node)
          (\<lambda>node. Inr (deliver 0 (two_trigger_network (lora_trigger_request ''b.safetensors'')) node)))"

text \<open>The search widget before any search, and a backend with one prompt.\<close>

definition search_ui_start :: search_ui where
  "search_ui_start = \<lparr>s_requests = [], s_console = [], dialog = None\<rparr>"

definition sample_search_network :: "request \<Rightarrow> search_data response" where
  "sample_search_network req =
     Replied True \<lparr>success = True,
                  prompts = Some [\<lparr>p_id = ''17'', p_category = ''elegant'', p_text = ''soft light'', p_use_count = 3\<rparr>]\<rparr>"

text \<open>A few points of the graphs of \<open>Number::toString\<close> and \<open>StringToNumber\<close>.\<close>

definition sample_Number_toString :: "real \<Rightarrow> string" where
  "sample_Number_toString r = (if r = 1 then ''1'' else if r = 1 / 2 then ''0.5'' else ''0'')"

definition sample_StringToNumber :: "string \<Rightarrow> jsnum" where
  "sample_StringToNumber s =
     (if s = ''1'' then Num 1 else if s = ''0.5'' then Num (1 / 2) else if s = ''0'' then Num 0 else NaN)"

section \<open>Properties of JSON text\<close>

lemma skip_ws_Cons: "\<not> json_ws c \<Longrightarrow> skip_ws (c # s) = c # s"
  by (simp add: skip_ws_def)

lemma hexval_hexdigit: "k < 16 \<Longrightarrow> hexval (hexdigit k) = Some k"
  by (auto simp: hexval_def hexdigit_def Let_def)

lemma with_value_Parsed [simp]: "with_value g (Parsed a rest) = Parsed (g a) rest"
  by (simp add: with_value_def)

lemma char_code: "of_char c = n \<Longrightarrow> n < 256 \<Longrightarrow> char_of (n::nat) = c"
  by auto

lemma parse_chars_escape_char:
  "parse_chars (escape_char c @ t) = with_value ((#) c) (parse_chars t)"
proof -
  consider (dq) "c = dquote" | (bs) "c = backslash"
    | (short) "c \<noteq> dquote" "c \<noteq> backslash" "c \<in> {CHR 0x08, CHR 0x09, CHR 0x0A, CHR 0x0C, CHR 0x0D}"
    | (ctl) "c \<noteq> dquote" "c \<noteq> backslash" "c \<notin> {CHR 0x08, CHR 0x09, CHR 0x0A, CHR 0x0C, CHR 0x0D}"
        "(of_char c :: nat) < 32"
    | (raw) "c \<noteq> dquote" "c \<noteq> backslash" "c \<notin> {CHR 0x08, CHR 0x09, CHR 0x0A, CHR 0x0C, CHR 0x0D}"
        "\<not> (of_char c :: nat) < 32"
    by blast
  then show ?thesis
  proof cases
    case dq
    then show ?thesis by (simp add: escape_char_def unescape_def dquote_def backslash_def)
  next
    case bs
    then show ?thesis by (simp add: escape_char_def unescape_def dquote_def backslash_def)
  next
    case short
    then show ?thesis by (auto simp: escape_char_def unescape_def dquote_def backslash_def)
  next
    case ctl
    let ?n = "of_char c :: nat"
    have hi: "hexval (hexdigit (?n div 16)) = Some (?n div 16)"
      using ctl(4) by (intro hexval_hexdigit) simp
    have lo: "hexval (hexdigit (?n mod 16)) = Some (?n mod 16)"
      by (intro hexval_hexdigit) simp
    have zero: "hexval (CHR ''0'') = Some 0" by (simp add: hexval_def)
    have val: "((0 * 16 + 0) * 16 + ?n div 16) * 16 + ?n mod 16 = ?n" by simp
    have chr: "char_of ?n = c" by simp
    from ctl have esc: "escape_char c = [backslash, CHR ''u'', CHR ''0'', CHR ''0'',
              hexdigit (?n div 16), hexdigit (?n mod 16)]"
      by (simp add: escape_char_def)
    show ?thesis
      using ctl(4) by (simp add: esc hi lo zero dquote_def backslash_def del: of_char_of)
  next
    case raw
    then show ?thesis by (simp add: escape_char_def)
  qed
qed

lemma parse_chars_escaped:
  "parse_chars (concat (map escape_char s) @ dquote # rest) = Parsed s rest"
  by (induction s) (simp_all add: parse_chars_escape_char)

lemma parse_chars_quote: "parse_chars (tl (quote s) @ rest) = Parsed s rest"
  by (simp add: quote_def parse_chars_escaped)


subsection \<open>Numbers\<close>

lemma is_digit_zero: "is_digit (CHR ''0'')"
  by (simp add: is_digit_def)

lemma num_step_num_char: "num_step st c = Some st' \<Longrightarrow> is_num_char c"
  by (cases st) (auto simp: num_step_def is_num_char_def is_digit_zero split: if_splits)

lemma num_accepts_num_chars: "num_accepts st t \<Longrightarrow> \<forall>c\<in>set t. is_num_char c"
  by (induction t arbitrary: st) (auto split: option.splits dest: num_step_num_char)

lemma json_number_start:
  "json_number t \<Longrightarrow> \<exists>c cs. t = c # cs \<and> (c = CHR ''-'' \<or> is_digit c)"
  by (cases t) (auto simp: json_number_def num_step_def is_digit_zero split: option.splits if_splits)

lemma parse_number_text:
  assumes "json_number t" and "ends_number rest"
  shows "parse_number rd (t @ rest) = Parsed (JNum (rd t)) rest"
proof -
  have all: "\<And>c. c \<in> set t \<Longrightarrow> is_num_char c"
    using assms(1) num_accepts_num_chars by (auto simp: json_number_def)
  have stop: "takeWhile is_num_char rest = []" "dropWhile is_num_char rest = rest"
    using assms(2) by (cases rest; simp add: ends_number_def)+
  have "takeWhile is_num_char (t @ rest) = t" "dropWhile is_num_char (t @ rest) = rest"
    using all stop by (simp_all add: takeWhile_append2 dropWhile_append2)
  with assms(1) show ?thesis by (simp add: parse_number_def)
qed

subsection \<open>Dispatch on the first character\<close>

lemma value_start_facts:
  "value_start c \<Longrightarrow> \<not> json_ws c \<and> c \<noteq> CHR '']'' \<and> c \<noteq> CHR ''}''"
  by (auto simp: value_start_def json_ws_def is_digit_def dquote_def)

lemma parse_value_string:
  "parse_value rd (Suc f) (dquote # cs) = with_value JStr (parse_chars cs)"
  by (simp add: skip_ws_Cons json_ws_def dquote_def)

lemma parse_value_array_empty:
  "parse_value rd (Suc f) (CHR ''['' # CHR '']'' # rest) = Parsed (JArr []) rest"
  by (simp add: skip_ws_Cons json_ws_def dquote_def)

lemma parse_value_array:
  "value_start d \<Longrightarrow>
   parse_value rd (Suc f) (CHR ''['' # d # ds) = with_value JArr (parse_elements rd f (d # ds))"
  using value_start_facts [of d]
  by (simp add: skip_ws_Cons json_ws_def dquote_def)

lemma parse_value_object_empty:
  "parse_value rd (Suc f) (CHR ''{'' # CHR ''}'' # rest) = Parsed (JObj []) rest"
  by (simp add: skip_ws_Cons json_ws_def dquote_def)

lemma parse_value_object:
  "parse_value rd (Suc f) (CHR ''{'' # dquote # ds) =
     (case parse_members rd f (dquote # ds) of
        Parsed members rest \<Rightarrow> make_object members rest
      | Rejected e \<Rightarrow> Rejected e
      | Exhausted \<Rightarrow> Exhausted)"
  by (simp add: skip_ws_Cons json_ws_def dquote_def)

lemma number_start_facts:
  "c = CHR ''-'' \<or> is_digit c \<Longrightarrow>
     \<not> json_ws c \<and> c \<noteq> dquote \<and> c \<noteq> CHR ''['' \<and> c \<noteq> CHR ''{''"
  by (auto simp: json_ws_def dquote_def is_digit_def)

lemma parse_value_number:
  "c = CHR ''-'' \<or> is_digit c \<Longrightarrow> parse_value rd (Suc f) (c # cs) = parse_number rd (c # cs)"
  using number_start_facts [of c] by (simp add: skip_ws_Cons)

lemma parse_value_literals:
  "parse_value rd (Suc f) (''null'' @ rest) = Parsed JNull rest"
  "parse_value rd (Suc f) (''true'' @ rest) = Parsed (JBool True) rest"
  "parse_value rd (Suc f) (''false'' @ rest) = Parsed (JBool False) rest"
  by (simp_all add: skip_ws_Cons json_ws_def dquote_def is_digit_def parse_literal_def)


subsection \<open>The text of a representable value\<close>

lemma text_of_simps:
  "text_of fmt JNull = ''null''"
  "text_of fmt (JBool b) = (if b then ''true'' else ''false'')"
  "text_of fmt (JNum (Num r)) = fmt r"
  "text_of fmt (JStr s) = quote s"
  "text_of fmt (JArr xs) = CHR ''['' # join_commas (map (text_of fmt) xs) @ '']''"
  by (simp_all add: text_of_def cong: map_cong)

lemma representable_serialize:
  "representable fmt rd v \<Longrightarrow> serialize fmt v = Some (text_of fmt v)"
  by (cases v) (simp_all add: text_of_def)

lemma text_of_object:
  assumes "list_all (\<lambda>kv. representable fmt rd (snd kv)) kvs"
  shows "text_of fmt (JObj kvs)
           = CHR ''{'' # join_commas (map (\<lambda>kv. quote (fst kv) @ CHR '':'' # text_of fmt (snd kv)) kvs) @ ''}''"
proof -
  have "concat (map (\<lambda>kv. case serialize fmt (snd kv) of
                            Some t \<Rightarrow> [quote (fst kv) @ CHR '':'' # t] | None \<Rightarrow> []) kvs)
          = map (\<lambda>kv. quote (fst kv) @ CHR '':'' # text_of fmt (snd kv)) kvs"
    using assms by (induction kvs) (simp_all add: representable_serialize [where rd = rd])
  then show ?thesis by (simp add: text_of_def)
qed

lemma text_of_start:
  assumes "representable fmt rd v"
  shows "\<exists>c cs. text_of fmt v = c # cs \<and> value_start c"
proof (cases v)
  case (JNum n)
  with assms obtain r where r: "n = Num r" "json_number (fmt r)"
    by (cases n) auto
  from json_number_start [OF r(2)] JNum r(1) show ?thesis
    by (auto simp: text_of_simps value_start_def)
next
  case (JObj kvs)
  with assms have "list_all (\<lambda>kv. representable fmt rd (snd kv)) kvs" by simp
  from text_of_object [OF this] JObj show ?thesis
    by (simp add: value_start_def)
qed (use assms in \<open>auto simp: text_of_simps value_start_def quote_def\<close>)

lemma update_new_key:
  "k \<notin> fst ` set al \<Longrightarrow> AList.update k v al = al @ [(k, v)]"
  by (induction al) auto

lemma foldl_update_distinct:
  "distinct (map fst (acc @ kvs)) \<Longrightarrow>
   foldl (\<lambda>obj kv. AList.update (fst kv) (snd kv) obj) acc kvs = acc @ kvs"
proof (induction kvs arbitrary: acc)
  case Nil
  then show ?case by simp
next
  case (Cons kv kvs)
  have new: "fst kv \<notin> fst ` set acc" using Cons.prems by auto
  have "distinct (map fst ((acc @ [kv]) @ kvs))" using Cons.prems by simp
  from Cons.IH [OF this] new show ?case by (simp add: update_new_key)
qed

lemma make_object_distinct:
  "distinct (map fst kvs) \<Longrightarrow> \<not> list_ex (\<lambda>kv. is_array_index (fst kv)) kvs \<Longrightarrow>
   make_object kvs rest = Parsed (JObj kvs) rest"
  using foldl_update_distinct [of "[]" kvs] by (simp add: make_object_def)

lemma ends_number_delims:
  "ends_number (CHR '']'' # s)" "ends_number (CHR '','' # s)" "ends_number (CHR ''}'' # s)"
  "ends_number []"
  by (simp_all add: ends_number_def is_num_char_def is_digit_def)

lemma skip_ws_delims:
  "skip_ws (CHR '']'' # s) = CHR '']'' # s" "skip_ws (CHR '','' # s) = CHR '','' # s"
  "skip_ws (CHR ''}'' # s) = CHR ''}'' # s" "skip_ws (CHR '':'' # s) = CHR '':'' # s"
  "skip_ws (dquote # s) = dquote # s"
  by (simp_all add: skip_ws_Cons json_ws_def dquote_def)

lemma parse_elements_texts:
  assumes IH: "\<And>x f rest. x \<in> set xs \<Longrightarrow> need x \<le> f \<Longrightarrow> ends_number rest \<Longrightarrow>
                 parse_value rd f (text_of fmt x @ rest) = Parsed x rest"
  shows "xs \<noteq> [] \<Longrightarrow> elems_need (map need xs) \<le> f \<Longrightarrow>
         parse_elements rd f (join_commas (map (text_of fmt) xs) @ CHR '']'' # rest) = Parsed xs rest"
  using IH
proof (induction xs arbitrary: f rule: induct_list012)
  case 1
  then show ?case by simp
next
  case (2 x)
  from "2.prems"(2) obtain g where f: "f = Suc g" and g: "need x \<le> g"
    by (cases f) auto
  have "parse_value rd g (text_of fmt x @ CHR '']'' # rest) = Parsed x (CHR '']'' # rest)"
    using "2.prems"(3) [of x g] g by (simp add: ends_number_delims)
  then show ?case by (simp add: f skip_ws_delims)
next
  case (3 x y zs)
  from "3.prems"(2) obtain g where f: "f = Suc g" and g: "need x \<le> g"
    and g': "elems_need (map need (y # zs)) \<le> g"
    by (cases f) auto
  let ?more = "join_commas (map (text_of fmt) (y # zs)) @ CHR '']'' # rest"
  have first: "parse_value rd g (text_of fmt x @ CHR '','' # ?more) = Parsed x (CHR '','' # ?more)"
    using "3.prems"(3) [of x g] g by (simp add: ends_number_delims)
  have others: "parse_elements rd g ?more = Parsed (y # zs) rest"
    using "3.IH"(2) [of g] g' "3.prems"(3) by simp
  show ?case
    using first others by (simp add: f skip_ws_delims)
qed

lemma parse_members_texts:
  assumes IH: "\<And>kv f rest. kv \<in> set kvs \<Longrightarrow> need (snd kv) \<le> f \<Longrightarrow> ends_number rest \<Longrightarrow>
                 parse_value rd f (text_of fmt (snd kv) @ rest) = Parsed (snd kv) rest"
  shows "kvs \<noteq> [] \<Longrightarrow> elems_need (map (\<lambda>kv. need (snd kv)) kvs) \<le> f \<Longrightarrow>
         parse_members rd f
           (join_commas (map (\<lambda>kv. quote (fst kv) @ CHR '':'' # text_of fmt (snd kv)) kvs) @ CHR ''}'' # rest)
           = Parsed kvs rest"
  using IH
proof (induction kvs arbitrary: f rule: induct_list012)
  case 1
  then show ?case by simp
next
  case (2 kv)
  from "2.prems"(2) obtain g where f: "f = Suc g" and g: "need (snd kv) \<le> g"
    by (cases f) auto
  have v: "parse_value rd g (text_of fmt (snd kv) @ CHR ''}'' # rest) = Parsed (snd kv) (CHR ''}'' # rest)"
    using "2.prems"(3) [of kv g] g by (simp add: ends_number_delims)
  have k: "\<And>t. parse_chars (concat (map escape_char (fst kv)) @ dquote # t) = Parsed (fst kv) t"
    by (rule parse_chars_escaped)
  show ?case
    using v by (simp add: f quote_def skip_ws_delims k)
next
  case (3 kv kv' zs)
  from "3.prems"(2) obtain g where f: "f = Suc g" and g: "need (snd kv) \<le> g"
    and g': "elems_need (map (\<lambda>kv. need (snd kv)) (kv' # zs)) \<le> g"
    by (cases f) auto
  let ?more = "join_commas (map (\<lambda>kv. quote (fst kv) @ CHR '':'' # text_of fmt (snd kv)) (kv' # zs))
                 @ CHR ''}'' # rest"
  have v: "parse_value rd g (text_of fmt (snd kv) @ CHR '','' # ?more) = Parsed (snd kv) (CHR '','' # ?more)"
    using "3.prems"(3) [of kv g] g by (simp add: ends_number_delims)
  have others: "parse_members rd g ?more = Parsed (kv' # zs) rest"
    using "3.IH"(2) [of g] g' "3.prems"(3) by simp
  have k: "\<And>t. parse_chars (concat (map escape_char (fst kv)) @ dquote # t) = Parsed (fst kv) t"
    by (rule parse_chars_escaped)
  show ?case
    using v others by (simp add: f quote_def skip_ws_delims k)
qed


subsection \<open>Parsing the text of a representable value\<close>

lemma parse_value_text:
  "representable fmt rd v \<Longrightarrow> need v \<le> f \<Longrightarrow> ends_number rest \<Longrightarrow>
   parse_value rd f (text_of fmt v @ rest) = Parsed v rest"
proof (induction v arbitrary: f rest)
  case JUndefined
  then show ?case by simp
next
  case JNull
  then obtain g where "f = Suc g" by (cases f) auto
  then show ?case by (simp only: text_of_simps parse_value_literals)
next
  case (JBool b)
  then obtain g where "f = Suc g" by (cases f) auto
  then show ?case by (cases b) (simp_all only: text_of_simps parse_value_literals if_True if_False)
next
  case (JNum n)
  then obtain g where f: "f = Suc g" by (cases f) auto
  from JNum.prems(1) obtain r where r: "n = Num r" "json_number (fmt r)" "rd (fmt r) = Num r"
    by (cases n) auto
  from json_number_start [OF r(2)] obtain c cs where c: "fmt r = c # cs" "c = CHR ''-'' \<or> is_digit c"
    by blast
  have "parse_value rd (Suc g) (fmt r @ rest) = parse_number rd (fmt r @ rest)"
    unfolding c(1) using parse_value_number [OF c(2), of rd g "cs @ rest"] by simp
  also have "\<dots> = Parsed (JNum (rd (fmt r))) rest"
    by (rule parse_number_text [OF r(2) JNum.prems(3)])
  finally have "parse_value rd (Suc g) (fmt r @ rest) = Parsed (JNum (Num r)) rest"
    by (simp only: r(3))
  then show ?case by (simp only: f r(1) text_of_simps)
next
  case (JStr s)
  then obtain g where f: "f = Suc g" by (cases f) auto
  have "parse_value rd (Suc g) (quote s @ rest) = with_value JStr (parse_chars (tl (quote s) @ rest))"
    using parse_value_string [of rd g "tl (quote s) @ rest"] by (simp add: quote_def)
  then show ?case by (simp add: f text_of_simps parse_chars_quote del: parse_value.simps)
next
  case (JArr xs)
  from JArr.prems(2) obtain g where f: "f = Suc g" and g: "elems_need (map need xs) \<le> g"
    by (cases f) auto
  show ?case
  proof (cases "xs = []")
    case True
    then show ?thesis
      using parse_value_array_empty [of rd g rest] by (simp add: f text_of_simps del: parse_value.simps)
  next
    case False
    let ?body = "join_commas (map (text_of fmt) xs) @ CHR '']'' # rest"
    have IH: "\<And>x f rest. x \<in> set xs \<Longrightarrow> need x \<le> f \<Longrightarrow> ends_number rest \<Longrightarrow>
                 parse_value rd f (text_of fmt x @ rest) = Parsed x rest"
      using JArr.IH JArr.prems(1) by (simp add: list_all_iff)
    have elems: "parse_elements rd g ?body = Parsed xs rest"
      using parse_elements_texts [of xs rd fmt g rest, OF IH False g] by simp
    from False obtain x ys where xs: "xs = x # ys" by (cases xs) auto
    then have "representable fmt rd x" using JArr.prems(1) by simp
    from text_of_start [OF this] obtain c cs where c: "text_of fmt x = c # cs" "value_start c"
      by blast
    then obtain ds where body: "?body = c # ds"
      using xs by (cases ys) auto
    have "parse_value rd (Suc g) (CHR ''['' # ?body) = with_value JArr (parse_elements rd g ?body)"
      unfolding body using parse_value_array [OF c(2)] by simp
    then show ?thesis
      using elems by (simp add: f text_of_simps del: parse_value.simps)
  qed
next
  case (JObj kvs)
  from JObj.prems(2) obtain g where f: "f = Suc g"
    and g: "elems_need (map (\<lambda>kv. need (snd kv)) kvs) \<le> g"
    by (cases f) auto
  from JObj.prems(1) have dist: "distinct (map fst kvs)"
    and noidx: "\<not> list_ex (\<lambda>kv. is_array_index (fst kv)) kvs"
    and reps: "list_all (\<lambda>kv. representable fmt rd (snd kv)) kvs"
    by simp_all
  note obj_text = text_of_object [OF reps]
  show ?case
  proof (cases "kvs = []")
    case True
    have "text_of fmt (JObj []) = ''{}''" by (simp add: text_of_def)
    with True show ?thesis
      using parse_value_object_empty [of rd g rest] by (simp add: f del: parse_value.simps)
  next
    case False
    let ?body = "join_commas (map (\<lambda>kv. quote (fst kv) @ CHR '':'' # text_of fmt (snd kv)) kvs)
                   @ CHR ''}'' # rest"
    have IH: "\<And>kv f rest. kv \<in> set kvs \<Longrightarrow> need (snd kv) \<le> f \<Longrightarrow> ends_number rest \<Longrightarrow>
                 parse_value rd f (text_of fmt (snd kv) @ rest) = Parsed (snd kv) rest"
    proof -
      fix kv :: "string \<times> jsval" and f rest
      assume kv: "kv \<in> set kvs" and n: "need (snd kv) \<le> f" and e: "ends_number rest"
      have "snd kv \<in> Basic_BNFs.snds kv" by (cases kv) simp
      moreover have "representable fmt rd (snd kv)" using reps kv by (simp add: list_all_iff)
      ultimately show "parse_value rd f (text_of fmt (snd kv) @ rest) = Parsed (snd kv) rest"
        using JObj.IH [OF kv] n e by blast
    qed
    have members: "parse_members rd g ?body = Parsed kvs rest"
      using parse_members_texts [of kvs rd fmt g rest, OF IH False g] by simp
    from False obtain kv ys where kvs: "kvs = kv # ys" by (cases kvs) auto
    then obtain ds where body: "?body = dquote # ds"
      by (cases ys) (auto simp: quote_def)
    have "parse_value rd (Suc g) (CHR ''{'' # ?body) =
            (case parse_members rd g ?body of
               Parsed members rest \<Rightarrow> make_object members rest
             | Rejected e \<Rightarrow> Rejected e
             | Exhausted \<Rightarrow> Exhausted)"
      unfolding body by (rule parse_value_object)
    then show ?thesis
      using members make_object_distinct [OF dist noidx, of rest]
      by (simp add: f obj_text del: parse_value.simps)
  qed
next
  case (JBuiltin x)
  then show ?case by simp
qed

subsection \<open>The budget suffices\<close>

lemma text_of_nonempty: "representable fmt rd v \<Longrightarrow> text_of fmt v \<noteq> []"
  using text_of_start [of fmt rd v] by auto

lemma elems_need_length:
  assumes "\<And>x. x \<in> set xs \<Longrightarrow> n x \<le> length (t x)" and "\<And>x. x \<in> set xs \<Longrightarrow> t x \<noteq> []"
  shows "elems_need (map n xs) \<le> length (join_commas (map t xs)) + (if xs = [] then 0 else 1)"
  using assms
proof (induction xs rule: induct_list012)
  case 1
  then show ?case by simp
next
  case (2 x)
  then show ?case by simp
next
  case (3 x y zs)
  have "n x \<le> length (t x)" using "3.prems"(1) by simp
  moreover have "elems_need (map n (y # zs)) \<le> length (join_commas (map t (y # zs))) + 1"
    using "3.IH"(2) "3.prems" by simp
  ultimately show ?case by simp
qed

lemma need_length: "representable fmt rd v \<Longrightarrow> need v \<le> length (text_of fmt v)"
proof (induction v)
  case (JArr xs)
  have "elems_need (map need xs) \<le> length (join_commas (map (text_of fmt) xs)) + (if xs = [] then 0 else 1)"
    using JArr by (intro elems_need_length) (auto simp: list_all_iff dest: text_of_nonempty)
  then show ?case by (simp add: text_of_simps split: if_splits)
next
  case (JObj kvs)
  from JObj.prems have reps: "list_all (\<lambda>kv. representable fmt rd (snd kv)) kvs" by simp
  have "elems_need (map (\<lambda>kv. need (snd kv)) kvs)
          \<le> length (join_commas (map (\<lambda>kv. quote (fst kv) @ CHR '':'' # text_of fmt (snd kv)) kvs))
             + (if kvs = [] then 0 else 1)"
  proof (intro elems_need_length)
    fix kv assume kv: "kv \<in> set kvs"
    have "snd kv \<in> Basic_BNFs.snds kv" by (cases kv) simp
    moreover have "representable fmt rd (snd kv)" using reps kv by (simp add: list_all_iff)
    ultimately have "need (snd kv) \<le> length (text_of fmt (snd kv))" using JObj.IH [OF kv] by blast
    then show "need (snd kv) \<le> length (quote (fst kv) @ CHR '':'' # text_of fmt (snd kv))" by simp
  qed simp
  then show ?case by (simp add: text_of_object [OF reps] split: if_splits)
next
  case (JNum n)
  then show ?case using text_of_nonempty [of fmt rd "JNum n"] by (simp add: Suc_le_eq)
next
  case (JStr s)
  then show ?case by (simp add: text_of_simps quote_def)
qed (simp_all add: text_of_simps)

lemma parse_JSON_stringify_JSON:
  assumes "representable fmt rd v"
  shows "parse_JSON rd (stringify_JSON fmt v) = Inr v"
proof -
  have t: "stringify_JSON fmt v = text_of fmt v"
    using representable_serialize [OF assms] by (simp add: stringify_JSON_def)
  have "need v \<le> 2 * length (text_of fmt v) + 2"
    using need_length [OF assms] by simp
  from parse_value_text [OF assms this, of "[]"]
  show ?thesis by (simp add: parse_JSON_def t ends_number_delims skip_ws_def)
qed

subsection \<open>The budget of \<open>parse_JSON\<close> is never used up\<close>

lemma skip_ws_Cons_length: "skip_ws s = c # cs \<Longrightarrow> length cs < length s"
  using length_dropWhile_le [of json_ws s] by (simp add: skip_ws_def)

lemma with_value_eq_Parsed: "with_value g p = Parsed a rest \<longleftrightarrow> (\<exists>b. p = Parsed b rest \<and> a = g b)"
  by (cases p) (auto simp: with_value_def)

lemma with_value_eq_Exhausted: "with_value g p = Exhausted \<longleftrightarrow> p = Exhausted"
  by (cases p) (auto simp: with_value_def)

lemma parse_chars_unfold:
  "parse_chars (c # cs) = Parsed k rest \<Longrightarrow>
     (c = dquote \<and> k = [] \<and> rest = cs)
     \<or> (\<exists>cs' k'. length cs' \<le> length cs \<and> parse_chars cs' = Parsed k' rest)"
proof -
  assume p: "parse_chars (c # cs) = Parsed k rest"
  show ?thesis
  proof (cases "c = dquote")
    case True
    with p show ?thesis by simp
  next
    case nq: False
    show ?thesis
    proof (cases "c = backslash")
      case False
      with nq p obtain k' where "parse_chars cs = Parsed k' rest"
        by (auto simp: with_value_eq_Parsed split: if_splits)
      then show ?thesis by auto
    next
      case True
      with nq p obtain e es where cs: "cs = e # es" by (cases cs) auto
      show ?thesis
      proof (cases "e = CHR ''u''")
        case False
        with nq True cs p obtain k' where "parse_chars es = Parsed k' rest"
          by (auto simp: with_value_eq_Parsed split: option.splits)
        then have "length es \<le> length cs \<and> parse_chars es = Parsed k' rest" using cs by simp
        then show ?thesis by blast
      next
        case u: True
        from nq True cs u p obtain h1 h2 h3 h4 r where es: "es = h1 # h2 # h3 # h4 # r"
          by (cases es rule: parse_chars.cases [case_names a b])
             (auto split: list.splits)
        from nq True cs u es p obtain k' where "parse_chars r = Parsed k' rest"
          by (auto simp: with_value_eq_Parsed split: option.splits if_splits)
        then have "length r \<le> length cs \<and> parse_chars r = Parsed k' rest" using cs es by simp
        then show ?thesis by blast
      qed
    qed
  qed
qed

lemma parse_chars_consumes: "parse_chars cs = Parsed k rest \<Longrightarrow> length rest < length cs"
proof (induction "length cs" arbitrary: cs k rule: less_induct)
  case less
  from less.prems obtain c cs' where cs: "cs = c # cs'" by (cases cs) auto
  from parse_chars_unfold [OF less.prems [unfolded cs]]
  show ?case
  proof
    assume "c = dquote \<and> k = [] \<and> rest = cs'"
    then show ?thesis by (simp add: cs)
  next
    assume "\<exists>t k'. length t \<le> length cs' \<and> parse_chars t = Parsed k' rest"
    then obtain t k' where t: "length t \<le> length cs'" "parse_chars t = Parsed k' rest" by blast
    then have "length rest < length t" using less.hyps [of t k'] by (simp add: cs)
    with t(1) show ?thesis by (simp add: cs)
  qed
qed

lemma parse_chars_not_Exhausted: "parse_chars cs \<noteq> Exhausted"
proof (induction "length cs" arbitrary: cs rule: less_induct)
  case less
  show ?case
  proof (cases cs)
    case Nil
    then show ?thesis by simp
  next
    case (Cons c cs')
    have IH: "\<And>t. length t \<le> length cs' \<Longrightarrow> parse_chars t \<noteq> Exhausted"
      using less.hyps by (simp add: Cons)
    show ?thesis
    proof (cases "c = backslash")
      case False
      then show ?thesis using IH [of cs'] by (simp add: Cons with_value_eq_Exhausted)
    next
      case True
      show ?thesis
      proof (cases cs')
        case Nil
        with True show ?thesis by (simp add: Cons dquote_def backslash_def)
      next
        case (Cons e es)
        note cs' = this
        show ?thesis
        proof (cases "e = CHR ''u''")
          case False
          then show ?thesis
            using True IH [of es]
            by (simp add: \<open>cs = c # cs'\<close> cs' with_value_eq_Exhausted dquote_def backslash_def
                     split: option.splits)
        next
          case u: True
          have "\<And>r. length r \<le> length es \<Longrightarrow> parse_chars r \<noteq> Exhausted"
            using IH by (simp add: cs')
          then show ?thesis
            using True u
            by (simp add: \<open>cs = c # cs'\<close> cs' with_value_eq_Exhausted dquote_def backslash_def
                     split: list.splits option.splits)
        qed
      qed
    qed
  qed
qed


lemma parse_number_not_Exhausted: "parse_number rd s \<noteq> Exhausted"
  by (simp add: parse_number_def)

lemma parse_number_consumes:
  "parse_number rd (c # cs) = Parsed v rest \<Longrightarrow> c = CHR ''-'' \<or> is_digit c \<Longrightarrow> length rest \<le> length cs"
  using length_dropWhile_le [of is_num_char cs]
  by (auto simp: parse_number_def is_num_char_def split: if_splits)

lemma parse_literal_not_Exhausted: "parse_literal s \<noteq> Exhausted"
  by (simp add: parse_literal_def)

lemma parse_literal_consumes: "parse_literal s = Parsed v rest \<Longrightarrow> length rest < length s"
  by (cases s) (auto simp: parse_literal_def split: if_splits)

lemma make_object_rest: "make_object members r = Parsed v rest \<Longrightarrow> rest = r"
  by (auto simp: make_object_def split: if_splits)

lemma make_object_not_Exhausted: "make_object members r \<noteq> Exhausted"
  by (simp add: make_object_def)

lemma skip_ws_length: "length (skip_ws s) \<le> length s"
  by (simp add: skip_ws_def length_dropWhile_le)

lemma parse_value_Suc_Parsed:
  assumes p: "parse_value rd (Suc f) s = Parsed v rest"
    and E: "\<And>t xs. parse_elements rd f t = Parsed xs rest \<Longrightarrow> length rest < length t"
    and M: "\<And>t kvs. parse_members rd f t = Parsed kvs rest \<Longrightarrow> length rest < length t"
  shows "length rest < length s"
proof -
  from p obtain c cs where s: "skip_ws s = c # cs"
    by (cases "skip_ws s") auto
  have cs: "length cs < length s" by (rule skip_ws_Cons_length [OF s])
  consider (str) "c = dquote" | (arr) "c \<noteq> dquote" "c = CHR ''[''"
    | (obj) "c \<noteq> dquote" "c \<noteq> CHR ''[''" "c = CHR ''{''"
    | (num) "c \<noteq> dquote" "c \<noteq> CHR ''[''" "c \<noteq> CHR ''{''" "c = CHR ''-'' \<or> is_digit c"
    | (lit) "c \<noteq> dquote" "c \<noteq> CHR ''[''" "c \<noteq> CHR ''{''" "\<not> (c = CHR ''-'' \<or> is_digit c)"
    by blast
  then show ?thesis
  proof cases
    case str
    with p s obtain k where "parse_chars cs = Parsed k rest"
      by (auto simp: with_value_eq_Parsed)
    from parse_chars_consumes [OF this] cs show ?thesis by simp
  next
    case arr
    with p s obtain d ds where d: "skip_ws cs = d # ds" by (cases "skip_ws cs") auto
    show ?thesis
    proof (cases "d = CHR '']''")
      case True
      with p s arr d have "rest = ds" by simp
      with skip_ws_Cons_length [OF d] cs show ?thesis by simp
    next
      case False
      with p s arr d obtain xs where "parse_elements rd f cs = Parsed xs rest"
        by (auto simp: with_value_eq_Parsed)
      from E [OF this] cs show ?thesis by simp
    qed
  next
    case obj
    with p s obtain d ds where d: "skip_ws cs = d # ds" by (cases "skip_ws cs") auto
    show ?thesis
    proof (cases "d = CHR ''}''")
      case True
      with p s obj d have "rest = ds" by simp
      with skip_ws_Cons_length [OF d] cs show ?thesis by simp
    next
      case False
      with p s obj d obtain ms r where m: "parse_members rd f cs = Parsed ms r" "make_object ms r = Parsed v rest"
        by (auto split: parsed.splits)
      from make_object_rest [OF m(2)] m(1) have "parse_members rd f cs = Parsed ms rest" by simp
      from M [OF this] cs show ?thesis by simp
    qed
  next
    case num
    with p s have "parse_number rd (c # cs) = Parsed v rest" by simp
    from parse_number_consumes [OF this num(4)] cs show ?thesis by simp
  next
    case lit
    with p s have "parse_literal (c # cs) = Parsed v rest" by simp
    from parse_literal_consumes [OF this] cs show ?thesis by simp
  qed
qed

lemma parse_consumes:
  shows "parse_value rd f s = Parsed v rest \<Longrightarrow> length rest < length s"
    and "parse_elements rd f s = Parsed vs rest \<Longrightarrow> length rest < length s"
    and "parse_members rd f s = Parsed kvs rest \<Longrightarrow> length rest < length s"
proof (induction f arbitrary: s v vs kvs rest)
  case 0
  { case 1 then show ?case by simp }
  { case 2 then show ?case by simp }
  { case 3 then show ?case by simp }
next
  case (Suc f)
  { case 1
    show ?case
      by (rule parse_value_Suc_Parsed [OF "1"]) (rule Suc.IH(2), assumption, rule Suc.IH(3), assumption) }
  { case 2
    from "2" obtain x r where x: "parse_value rd f s = Parsed x r"
      by (auto split: parsed.splits)
    from Suc.IH(1) [OF x] have r: "length r < length s" .
    from "2" x obtain d ds where d: "skip_ws r = d # ds" by (cases "skip_ws r") auto
    have ds: "length ds < length r" by (rule skip_ws_Cons_length [OF d])
    show ?case
    proof (cases "d = CHR '',''")
      case True
      with "2" x d obtain ys where "parse_elements rd f ds = Parsed ys rest"
        by (auto simp: with_value_eq_Parsed)
      from Suc.IH(2) [OF this] ds r show ?thesis by simp
    next
      case False
      with "2" x d have "rest = ds" by (auto split: if_splits)
      with ds r show ?thesis by simp
    qed }
  { case 3
    from "3" obtain c cs where c: "skip_ws s = c # cs" by (cases "skip_ws s") auto
    have cs: "length cs < length s" by (rule skip_ws_Cons_length [OF c])
    from "3" c have q: "c = dquote" by (auto split: if_splits)
    with "3" c obtain k r where k: "parse_chars cs = Parsed k r"
      by (auto split: parsed.splits)
    from parse_chars_consumes [OF k] have r: "length r < length cs" .
    from "3" c q k obtain d ds where d: "skip_ws r = d # ds" by (cases "skip_ws r") auto
    have ds: "length ds < length r" by (rule skip_ws_Cons_length [OF d])
    from "3" c q k d have col: "d = CHR '':''" by (auto split: if_splits)
    with "3" c q k d obtain x r' where x: "parse_value rd f ds = Parsed x r'"
      by (auto split: parsed.splits)
    from Suc.IH(1) [OF x] have r': "length r' < length ds" .
    from "3" c q k d col x obtain d' ds' where d': "skip_ws r' = d' # ds'" by (cases "skip_ws r'") auto
    have ds': "length ds' < length r'" by (rule skip_ws_Cons_length [OF d'])
    show ?case
    proof (cases "d' = CHR '',''")
      case True
      with "3" c q k d col x d' obtain ys where "parse_members rd f ds' = Parsed ys rest"
        by (auto simp: with_value_eq_Parsed)
      from Suc.IH(3) [OF this] ds' r' ds r cs show ?thesis by simp
    next
      case False
      with "3" c q k d col x d' have "rest = ds'" by (auto split: if_splits)
      with ds' r' ds r cs show ?thesis by simp
    qed }
qed


lemma parse_not_Exhausted:
  shows "2 * length s < f \<Longrightarrow> parse_value rd f s \<noteq> Exhausted"
    and "2 * length s + 1 < f \<Longrightarrow> parse_elements rd f s \<noteq> Exhausted"
    and "2 * length s + 1 < f \<Longrightarrow> parse_members rd f s \<noteq> Exhausted"
proof (induction f arbitrary: s)
  case 0
  { case 1 then show ?case by simp }
  { case 2 then show ?case by simp }
  { case 3 then show ?case by simp }
next
  case (Suc f)
  { case 1
    show ?case
    proof (cases "skip_ws s")
      case Nil
      then show ?thesis by simp
    next
      case (Cons c cs)
      have cs: "length cs < length s" by (rule skip_ws_Cons_length [OF Cons])
      with "1" have b: "2 * length cs + 1 < f" by simp
      have E: "parse_elements rd f cs \<noteq> Exhausted" by (rule Suc.IH(2) [OF b])
      have M: "parse_members rd f cs \<noteq> Exhausted" by (rule Suc.IH(3) [OF b])
      show ?thesis
        using E M parse_chars_not_Exhausted [of cs] parse_number_not_Exhausted [of rd "c # cs"]
          parse_literal_not_Exhausted [of "c # cs"] make_object_not_Exhausted
        by (auto simp: Cons with_value_eq_Exhausted split: list.splits parsed.splits)
    qed }
  { case 2
    from "2" have "2 * length s < f" by simp
    from Suc.IH(1) [OF this] have V: "parse_value rd f s \<noteq> Exhausted" .
    show ?case
    proof (cases "parse_value rd f s")
      case (Parsed x r)
      from parse_consumes(1) [OF this] have r: "length r < length s" .
      show ?thesis
      proof (cases "skip_ws r")
        case Nil
        with Parsed show ?thesis by simp
      next
        case (Cons d ds)
        from skip_ws_Cons_length [OF this] r "2" have "2 * length ds + 1 < f" by simp
        from Suc.IH(2) [OF this] show ?thesis
          by (simp add: Parsed Cons with_value_eq_Exhausted)
      qed
    next
      case (Rejected e)
      then show ?thesis by simp
    next
      case Exhausted
      with V show ?thesis by simp
    qed }
  { case 3
    show ?case
    proof (cases "skip_ws s")
      case Nil
      then show ?thesis by simp
    next
      case (Cons c cs)
      note s = this
      have cs: "length cs < length s" by (rule skip_ws_Cons_length [OF s])
      show ?thesis
      proof (cases "parse_chars cs")
        case (Parsed k r)
        note k = this
        from parse_chars_consumes [OF k] have r: "length r < length cs" .
        show ?thesis
        proof (cases "skip_ws r")
          case Nil
          then show ?thesis by (simp add: s k)
        next
          case (Cons d ds)
          note d = this
          from skip_ws_Cons_length [OF d] have ds: "length ds < length r" .
          from ds r cs "3" have "2 * length ds < f" by simp
          from Suc.IH(1) [OF this] have V: "parse_value rd f ds \<noteq> Exhausted" .
          show ?thesis
          proof (cases "parse_value rd f ds")
            case (Parsed x r')
            note x = this
            from parse_consumes(1) [OF x] have r': "length r' < length ds" .
            show ?thesis
            proof (cases "skip_ws r'")
              case Nil
              then show ?thesis by (simp add: s k d x)
            next
              case (Cons d' ds')
              from skip_ws_Cons_length [OF this] r' ds r cs "3" have "2 * length ds' + 1 < f" by simp
              from Suc.IH(3) [OF this] show ?thesis
                by (simp add: s k d x Cons with_value_eq_Exhausted)
            qed
          next
            case (Rejected e)
            then show ?thesis by (simp add: s k d)
          next
            case Exhausted
            with V show ?thesis by simp
          qed
        qed
      next
        case (Rejected e)
        then show ?thesis by (simp add: s)
      next
        case Exhausted
        then show ?thesis using parse_chars_not_Exhausted [of cs] by simp
      qed
    qed }
qed

lemma parse_JSON_budget: "parse_value rd (2 * length s + 2) s \<noteq> Exhausted"
  by (rule parse_not_Exhausted(1)) simp

section \<open>Properties of persisting\<close>

lemma find_set_widget_value:
  "List.find (\<lambda>w. w_name w = nm) ws = Some w \<Longrightarrow>
   List.find (\<lambda>w. w_name w = nm) (set_widget_value nm v ws) = Some (w\<lparr>w_value := Some v\<rparr>)"
  by (induction ws) (auto split: if_splits)

lemma find_widget_syncToWidget:
  "find_widget ''lora_data'' (widgets node) = Some w \<Longrightarrow>
   find_widget ''lora_data'' (widgets (syncToWidget f node))
     = Some (w\<lparr>w_value := Some (f (loraRows node))\<rparr>)"
  by (auto simp: find_widget_def syncToWidget_def find_set_widget_value split: option.splits)

lemma persisted_text_syncToWidget:
  "find_widget ''lora_data'' (widgets node) \<noteq> None \<Longrightarrow>
   persisted_text (syncToWidget f node) = Some (f (loraRows node))"
  using find_widget_syncToWidget [of node _ f]
  by (auto simp: persisted_text_def)

lemma parseLoraData_persisted:
  "parseLoraData P node =
     (case persisted_text node of
        None \<Rightarrow> node\<lparr>loraRows := JArr []\<rparr>
      | Some v \<Rightarrow>
          if v = [] \<or> v = ''[]'' then node\<lparr>loraRows := JArr []\<rparr>
          else (case P v of
                  Inr parsed \<Rightarrow> node\<lparr>loraRows := parsed\<rparr>
                | Inl e \<Rightarrow> node\<lparr>console := console node @ [''[PowerLoRA] Error parsing lora_data:''],
                                loraRows := JArr []\<rparr>))"
  by (simp add: parseLoraData_def persisted_text_def split: option.splits)

lemma persisted_text_created [simp]:
  "persisted_text (created (Some [lora_data_widget v])) = v"
  by (simp add: persisted_text_def find_widget_def created_def lora_data_widget_def)

subsection \<open>Rows\<close>

lemma is_row_representable:
  assumes "is_row fmt rd row"
  shows "representable fmt rd row"
proof -
  from assms obtain kvs where row: "row = JObj kvs"
    by (cases row) (auto simp: is_row_def)
  from assms row have dist: "distinct (map fst kvs)"
    and keys: "set (map fst kvs) = {''lora'', ''strength'', ''on''}"
    and l: "\<exists>s. map_of kvs ''lora'' = Some (JStr s)"
    and s: "\<exists>r. map_of kvs ''strength'' = Some (JNum (Num r)) \<and> json_number (fmt r) \<and> rd (fmt r) = Num r"
    and b: "\<exists>b. map_of kvs ''on'' = Some (JBool b)"
    by (auto simp: is_row_def split: option.splits jsval.splits jsnum.splits)
  have noidx: "\<not> is_array_index k" if "k \<in> {''lora'', ''strength'', ''on''}" for k
    using that by (auto simp: is_array_index_def is_digit_def)
  have vals: "representable fmt rd (snd kv)" if kv: "kv \<in> set kvs" for kv
  proof -
    have m: "map_of kvs (fst kv) = Some (snd kv)"
      using dist kv by (cases kv) simp
    have "fst kv \<in> {''lora'', ''strength'', ''on''}"
      using kv keys by force
    then consider "fst kv = ''lora''" | "fst kv = ''strength''" | "fst kv = ''on''" by blast
    then show ?thesis
    proof cases
      case 1 with m l show ?thesis by auto
    next
      case 2 with m s show ?thesis by auto
    next
      case 3 with m b show ?thesis by auto
    qed
  qed
  have "\<not> list_ex (\<lambda>kv. is_array_index (fst kv)) kvs"
  proof -
    have "\<not> is_array_index (fst kv)" if "kv \<in> set kvs" for kv
      using that keys noidx [of "fst kv"] by force
    then show ?thesis by (auto simp: list_ex_iff)
  qed
  with dist vals show ?thesis by (simp add: row list_all_iff)
qed

lemma find_set_widget_value_None:
  "List.find (\<lambda>w. w_name w = nm) ws = None \<Longrightarrow>
   List.find (\<lambda>w. w_name w = nm) (set_widget_value nm v ws) = None"
  by (induction ws) (auto split: if_splits)

lemma persisted_text_syncToWidget_Some:
  assumes "persisted_text (syncToWidget f node) = Some t"
  shows "t = f (loraRows node)"
proof (cases "find_widget ''lora_data'' (widgets node)")
  case None
  then have "persisted_text (syncToWidget f node) = None"
    by (auto simp: persisted_text_def find_widget_def syncToWidget_def find_set_widget_value_None
             split: option.splits)
  with assms show ?thesis by simp
next
  case (Some w)
  then have "persisted_text (syncToWidget f node) = Some (f (loraRows node))"
    by (intro persisted_text_syncToWidget) simp
  with assms show ?thesis by simp
qed

lemma join_commas_empty: "(\<And>t. t \<in> set ts \<Longrightarrow> t \<noteq> []) \<Longrightarrow> join_commas ts = [] \<Longrightarrow> ts = []"
  by (induction ts rule: induct_list012) auto

text \<open>
  C1. Let every row of a node be an object with the fields \<open>lora\<close> (a string),
  \<open>strength\<close> (a finite number, one that the runtime prints as a JSON number and reads
  back) and \<open>on\<close> (a boolean). If \<open>syncToWidget\<close> has stored a text for this node, and
  a node, whatever its rows are, has that text as its persisted text, then the text is
  \<open>JSON.stringify\<close> of the rows and \<open>parseLoraData\<close> makes the rows of the second
  node the rows of the first.
\<close>

theorem loadFrom_serialize_roundtrip:
  assumes "\<forall>row\<in>set rows. is_row Number_toString StringToNumber row"
    and "loraRows saved = JArr rows"
    and "persisted_text (syncToWidget (stringify_JSON Number_toString) saved) = Some text"
    and "persisted_text restored = Some text"
  shows "text = stringify_JSON Number_toString (JArr rows)
       \<and> loraRows (parseLoraData (parse_JSON StringToNumber) restored) = JArr rows"
proof -
  have rep: "representable Number_toString StringToNumber (JArr rows)"
    using assms(1) by (simp add: list_all_iff is_row_representable)
  have saved_text: "text = stringify_JSON Number_toString (JArr rows)"
    using persisted_text_syncToWidget_Some [OF assms(3)] assms(2) by simp
  have parsed: "parse_JSON StringToNumber text = Inr (JArr rows)"
    unfolding saved_text by (rule parse_JSON_stringify_JSON [OF rep])
  have shape: "text = CHR ''['' # join_commas (map (text_of Number_toString) rows) @ '']''"
    using representable_serialize [OF rep] by (simp add: saved_text stringify_JSON_def text_of_simps)
  have "loraRows (parseLoraData (parse_JSON StringToNumber) restored) = JArr rows"
  proof (cases "text = ''[]''")
    case True
    then have "join_commas (map (text_of Number_toString) rows) = []"
      using shape by simp
    moreover have "t \<noteq> []" if "t \<in> set (map (text_of Number_toString) rows)" for t
      using that assms(1) text_of_nonempty [OF is_row_representable] by auto
    ultimately have "map (text_of Number_toString) rows = []"
      by (intro join_commas_empty) auto
    then have "rows = []" by simp
    with True assms(4) show ?thesis by (simp add: parseLoraData_persisted)
  next
    case False
    moreover have "text \<noteq> []" using shape by simp
    ultimately show ?thesis
      using assms(4) parsed by (simp add: parseLoraData_persisted)
  qed
  with saved_text show ?thesis by simp
qed

lemma sample_row_text: "stringify_JSON sample_Number_toString sample_rows = sample_text"
  by code_simp

theorem loadFrom_serialize_roundtrip_witness:
  "is_row sample_Number_toString sample_StringToNumber
     (JObj [(''lora'', JStr ''a.safetensors''), (''strength'', JNum (Num 1)), (''on'', JBool True)])
   \<and> loraRows ((created (Some [lora_data_widget None]))\<lparr>loraRows := sample_rows\<rparr>) = sample_rows
   \<and> persisted_text (syncToWidget (stringify_JSON sample_Number_toString)
         ((created (Some [lora_data_widget None]))\<lparr>loraRows := sample_rows\<rparr>)) = Some sample_text
   \<and> persisted_text (created (Some [lora_data_widget (Some sample_text)])) = Some sample_text
   \<and> loraRows (created (Some [lora_data_widget (Some sample_text)])) = JArr []
   \<and> loraRows (parseLoraData (parse_JSON sample_StringToNumber)
         (created (Some [lora_data_widget (Some sample_text)]))) = sample_rows"
proof -
  let ?row = "JObj [(''lora'', JStr ''a.safetensors''), (''strength'', JNum (Num 1)), (''on'', JBool True)]"
  let ?saved = "(created (Some [lora_data_widget None]))\<lparr>loraRows := sample_rows\<rparr>"
  let ?restored = "created (Some [lora_data_widget (Some sample_text)])"
  have num: "json_number ''1''"
    by (simp add: json_number_def num_step_def is_digit_def)
  have row: "is_row sample_Number_toString sample_StringToNumber ?row"
    using num by (simp add: is_row_def sample_Number_toString_def sample_StringToNumber_def)
  then have h1: "\<forall>row\<in>set [?row]. is_row sample_Number_toString sample_StringToNumber row"
    by simp
  have h2: "loraRows ?saved = JArr [?row]" by (simp add: sample_rows_def)
  have h3: "persisted_text (syncToWidget (stringify_JSON sample_Number_toString) ?saved) = Some sample_text"
    by (simp add: persisted_text_syncToWidget find_widget_def created_def lora_data_widget_def sample_row_text)
  have h4: "persisted_text ?restored = Some sample_text" by simp
  have h5: "loraRows ?restored = JArr []" by (simp add: created_def)
  from loadFrom_serialize_roundtrip [OF h1 h2 h3 h4] row h2 h3 h4 h5
  show ?thesis by (simp add: sample_rows_def)
qed

text \<open>
  C6. When the persisted text is absent (no \<open>lora_data\<close> widget, no value, or the empty
  string), \<open>parseLoraData\<close> makes the rows the empty array and changes nothing else:
  nothing is logged. When the text is not empty and \<open>JSON.parse\<close> throws on it (which
  it does not on \<open>[]\<close>), \<open>parseLoraData\<close> returns normally as well: the rows are the
  empty array, the line of the \<open>catch\<close> is appended to the log, and nothing else
  changes.
\<close>

theorem loadFrom_absent_or_malformed:
  assumes "\<not> isl (JSON_parse ''[]'')"
  shows "(persisted_text node = None \<or> persisted_text node = Some [] \<longrightarrow>
            parseLoraData JSON_parse node = node\<lparr>loraRows := JArr []\<rparr>)
       \<and> (\<forall>v. persisted_text node = Some v \<and> v \<noteq> [] \<and> isl (JSON_parse v) \<longrightarrow>
            parseLoraData JSON_parse node
              = node\<lparr>console := console node @ [''[PowerLoRA] Error parsing lora_data:''],
                     loraRows := JArr []\<rparr>)"
proof (intro conjI impI allI)
  assume "persisted_text node = None \<or> persisted_text node = Some []"
  then show "parseLoraData JSON_parse node = node\<lparr>loraRows := JArr []\<rparr>"
    by (auto simp: parseLoraData_persisted)
next
  fix v
  assume v: "persisted_text node = Some v \<and> v \<noteq> [] \<and> isl (JSON_parse v)"
  with assms have "v \<noteq> ''[]''" by auto
  with v show "parseLoraData JSON_parse node
              = node\<lparr>console := console node @ [''[PowerLoRA] Error parsing lora_data:''],
                     loraRows := JArr []\<rparr>"
    by (auto simp: parseLoraData_persisted isl_def)
qed

theorem loadFrom_absent_or_malformed_witness:
  "\<not> isl (sample_JSON_parse ''[]'')
   \<and> persisted_text (created None) = None
   \<and> parseLoraData sample_JSON_parse (created None) = (created None)\<lparr>loraRows := JArr []\<rparr>
   \<and> persisted_text (created (Some [lora_data_widget (Some ''{oops'')])) = Some ''{oops''
   \<and> ''{oops'' \<noteq> [] \<and> isl (sample_JSON_parse ''{oops'')
   \<and> parseLoraData sample_JSON_parse (created (Some [lora_data_widget (Some ''{oops'')]))
       = (created (Some [lora_data_widget (Some ''{oops'')]))
           \<lparr>console := console (created (Some [lora_data_widget (Some ''{oops'')]))
                          @ [''[PowerLoRA] Error parsing lora_data:''],
            loraRows := JArr []\<rparr>"
proof -
  have ok: "\<not> isl (sample_JSON_parse ''[]'')"
    by (simp add: sample_JSON_parse_def)
  have absent: "persisted_text (created None) = None"
    by (simp add: persisted_text_def find_widget_def created_def)
  have bad: "isl (sample_JSON_parse ''{oops'')"
    by (simp add: sample_JSON_parse_def sample_text_def)
  from loadFrom_absent_or_malformed
         [where JSON_parse = sample_JSON_parse and node = "created None", OF ok]
       loadFrom_absent_or_malformed
         [where JSON_parse = sample_JSON_parse
            and node = "created (Some [lora_data_widget (Some ''{oops'')])", OF ok]
       ok absent bad
  show ?thesis by simp
qed

text \<open>
  C10. \<open>parseLoraData\<close> does not look at the shape of what it parses. For a persisted
  text other than \<open>""\<close> (which \<open>JSON.parse\<close> rejects) and \<open>"[]"\<close>, the rows become
  whatever \<open>JSON.parse\<close> returns, and only its exception resets them to the empty array.
\<close>

theorem loadFrom_no_shape_validation:
  assumes "persisted_text node = Some s" and "s \<noteq> ''[]''" and "isl (JSON_parse [])"
  shows "loraRows (parseLoraData JSON_parse node)
           = (case JSON_parse s of Inr parsed \<Rightarrow> parsed | Inl e \<Rightarrow> JArr [])
         \<and> (\<forall>parsed. JSON_parse s = Inr parsed \<longrightarrow>
                parseLoraData JSON_parse node = node\<lparr>loraRows := parsed\<rparr>)"
proof (cases "s = []")
  case True
  with assms show ?thesis by (auto simp: parseLoraData_persisted isl_def)
next
  case False
  with assms show ?thesis by (auto simp: parseLoraData_persisted split: sum.splits)
qed

theorem loadFrom_no_shape_validation_witness:
  "persisted_text (created (Some [lora_data_widget (Some ''7'')])) = Some ''7''
   \<and> ''7'' \<noteq> ''[]''
   \<and> isl (sample_JSON_parse [])
   \<and> sample_JSON_parse ''7'' = Inr (JNum (Num 7))
   \<and> parseLoraData sample_JSON_parse (created (Some [lora_data_widget (Some ''7'')]))
       = (created (Some [lora_data_widget (Some ''7'')]))\<lparr>loraRows := JNum (Num 7)\<rparr>"
proof -
  have e: "isl (sample_JSON_parse [])"
    by (simp add: sample_JSON_parse_def sample_text_def)
  have p: "sample_JSON_parse ''7'' = Inr (JNum (Num 7))"
    by (simp add: sample_JSON_parse_def sample_text_def)
  from loadFrom_no_shape_validation
         [of "created (Some [lora_data_widget (Some ''7'')])" "''7''" sample_JSON_parse] e p
  show ?thesis by simp
qed

section \<open>Properties of the trigger word lookup\<close>

lemma updateTriggerDisplay_fields [simp]:
  "requests (updateTriggerDisplay i t n) = requests n"
  "triggerCache (updateTriggerDisplay i t n) = triggerCache n"
  "triggerDisplays (updateTriggerDisplay i t n) = triggerDisplays n"
  "console (updateTriggerDisplay i t n) = console n"
  "inflight (updateTriggerDisplay i t n) = inflight n"
  "loraRows (updateTriggerDisplay i t n) = loraRows n"
  "widgets (updateTriggerDisplay i t n) = widgets n"
  "length (rowEls (updateTriggerDisplay i t n)) = length (rowEls n)"
  by (simp_all add: updateTriggerDisplay_def)

lemma fetchTriggerWord_sentinel:
  "x = [] \<or> x = ''None'' \<Longrightarrow>
   fetchTriggerWord net i x n =
     updateTriggerDisplay i (JStr []) (n\<lparr>triggerDisplays := (triggerDisplays n)(i \<mapsto> JStr [])\<rparr>)"
  by (auto simp: fetchTriggerWord_def fetchTriggerWord_begin_def)

lemma fetchTriggerWord_hit:
  "x \<noteq> [] \<Longrightarrow> x \<noteq> ''None'' \<Longrightarrow> truthy (js_get (triggerCache n) JStr x) \<Longrightarrow>
   fetchTriggerWord net i x n =
     updateTriggerDisplay i (js_get (triggerCache n) JStr x)
       (n\<lparr>triggerDisplays := (triggerDisplays n)(i \<mapsto> js_get (triggerCache n) JStr x)\<rparr>)"
  by (simp add: fetchTriggerWord_def fetchTriggerWord_begin_def Let_def)

lemma fetchTriggerWord_miss:
  "x \<noteq> [] \<Longrightarrow> x \<noteq> ''None'' \<Longrightarrow> \<not> truthy (js_get (triggerCache n) JStr x) \<Longrightarrow>
   fetchTriggerWord net i x n =
     fetchTriggerWord_resume (net (lora_trigger_request x)) i x
       (n\<lparr>requests := requests n @ [lora_trigger_request x]\<rparr>)"
  by (simp add: fetchTriggerWord_def fetchTriggerWord_begin_def Let_def)

lemma cold_not_proto: "\<not> truthy (js_get c val x) \<Longrightarrow> x \<noteq> ''__proto__''"
  by (auto simp: js_get_def)

lemma trim_nonempty: "trim tw \<noteq> [] \<Longrightarrow> tw \<noteq> []"
  by (auto simp: trim_def)

lemma power_twice:
  assumes x: "x \<noteq> []" "x \<noteq> ''None''"
    and cold: "\<not> truthy (js_get (triggerCache n) JStr x)"
    and ans: "net1 (lora_trigger_request x) = Replied True (Some tw)"
    and tw: "trim tw \<noteq> []"
  shows "triggerCache (fetchTriggerWord net1 i x n) = (triggerCache n)(x \<mapsto> trim tw)"
    and "triggerDisplays (fetchTriggerWord net1 i x n) i = Some (JStr (trim tw))"
    and "requests (fetchTriggerWord net1 i x n) = requests n @ [lora_trigger_request x]"
    and "requests (fetchTriggerWord net2 j x (fetchTriggerWord net1 i x n))
           = requests n @ [lora_trigger_request x]"
    and "triggerDisplays (fetchTriggerWord net2 j x (fetchTriggerWord net1 i x n)) j
           = Some (JStr (trim tw))"
proof -
  have twne: "tw \<noteq> []" using tw by (rule trim_nonempty)
  have np: "x \<noteq> ''__proto__''" using cold by (rule cold_not_proto)
  let ?n1 = "fetchTriggerWord net1 i x n"
  have n1: "?n1 = updateTriggerDisplay i (JStr (trim tw))
                 (n\<lparr>requests := requests n @ [lora_trigger_request x],
                    triggerCache := (triggerCache n)(x \<mapsto> trim tw),
                    triggerDisplays := (triggerDisplays n)(i \<mapsto> JStr (trim tw))\<rparr>)"
    using x cold ans twne np
    by (simp add: fetchTriggerWord_miss fetchTriggerWord_resume_def js_set_def Let_def)
  show c1: "triggerCache ?n1 = (triggerCache n)(x \<mapsto> trim tw)" by (simp add: n1)
  show "triggerDisplays ?n1 i = Some (JStr (trim tw))" by (simp add: n1)
  show r1: "requests ?n1 = requests n @ [lora_trigger_request x]" by (simp add: n1)
  have hit: "js_get (triggerCache ?n1) JStr x = JStr (trim tw)"
    using np by (simp add: c1 js_get_def)
  have n2: "fetchTriggerWord net2 j x ?n1 =
      updateTriggerDisplay j (JStr (trim tw))
        (?n1\<lparr>triggerDisplays := (triggerDisplays ?n1)(j \<mapsto> JStr (trim tw))\<rparr>)"
    using fetchTriggerWord_hit [of x ?n1 net2 j] x tw hit by simp
  show "requests (fetchTriggerWord net2 j x ?n1) = requests n @ [lora_trigger_request x]"
    by (simp add: n2 r1)
  show "triggerDisplays (fetchTriggerWord net2 j x ?n1) j = Some (JStr (trim tw))"
    by (simp add: n2)
qed

lemma multi_sentinel:
  "x = [] \<or> x = ''None'' \<Longrightarrow>
   multi_fetchTriggerWord net w x m =
     m\<lparr>m_triggerDisplays := js_set (m_triggerDisplays m) (slot_key w) (JStr []), m_dirty := True\<rparr>"
  by (auto simp: multi_fetchTriggerWord_def)

lemma multi_hit:
  "x \<noteq> [] \<Longrightarrow> x \<noteq> ''None'' \<Longrightarrow> truthy (js_get (m_triggerCache m) JStr x) \<Longrightarrow>
   multi_fetchTriggerWord net w x m =
     m\<lparr>m_triggerDisplays := js_set (m_triggerDisplays m) (slot_key w) (js_get (m_triggerCache m) JStr x),
       m_dirty := True\<rparr>"
  by (simp add: multi_fetchTriggerWord_def Let_def)

lemma multi_twice:
  assumes x: "x \<noteq> []" "x \<noteq> ''None''"
    and cold: "\<not> truthy (js_get (m_triggerCache m) JStr x)"
    and ans: "net1 (lora_trigger_request x) = Replied True (Some tw)"
    and tw: "trim tw \<noteq> []"
  shows "m_triggerCache (multi_fetchTriggerWord net1 w x m) = (m_triggerCache m)(x \<mapsto> trim tw)"
    and "m_triggerDisplays (multi_fetchTriggerWord net1 w x m)
           = js_set (m_triggerDisplays m) (slot_key w) (JStr (trim tw))"
    and "m_requests (multi_fetchTriggerWord net1 w x m) = m_requests m @ [lora_trigger_request x]"
    and "m_requests (multi_fetchTriggerWord net2 w' x (multi_fetchTriggerWord net1 w x m))
           = m_requests m @ [lora_trigger_request x]"
    and "m_triggerDisplays (multi_fetchTriggerWord net2 w' x (multi_fetchTriggerWord net1 w x m))
           = js_set (js_set (m_triggerDisplays m) (slot_key w) (JStr (trim tw))) (slot_key w') (JStr (trim tw))"
proof -
  have twne: "tw \<noteq> []" using tw by (rule trim_nonempty)
  have np: "x \<noteq> ''__proto__''" using cold by (rule cold_not_proto)
  let ?m1 = "multi_fetchTriggerWord net1 w x m"
  have m1: "?m1 = m\<lparr>m_requests := m_requests m @ [lora_trigger_request x],
                    m_triggerCache := (m_triggerCache m)(x \<mapsto> trim tw),
                    m_triggerDisplays := js_set (m_triggerDisplays m) (slot_key w) (JStr (trim tw)),
                    m_dirty := True\<rparr>"
    using x cold ans twne np
    by (simp add: multi_fetchTriggerWord_def js_set_def Let_def)
  show c1: "m_triggerCache ?m1 = (m_triggerCache m)(x \<mapsto> trim tw)" by (simp add: m1)
  show d1: "m_triggerDisplays ?m1 = js_set (m_triggerDisplays m) (slot_key w) (JStr (trim tw))"
    by (simp add: m1)
  show r1: "m_requests ?m1 = m_requests m @ [lora_trigger_request x]" by (simp add: m1)
  have hit: "js_get (m_triggerCache ?m1) JStr x = JStr (trim tw)"
    using np by (simp add: c1 js_get_def)
  have m2: "multi_fetchTriggerWord net2 w' x ?m1 =
      ?m1\<lparr>m_triggerDisplays := js_set (m_triggerDisplays ?m1) (slot_key w') (JStr (trim tw)),
          m_dirty := True\<rparr>"
    using multi_hit [of x ?m1 net2 w'] x tw hit by simp
  show "m_requests (multi_fetchTriggerWord net2 w' x ?m1) = m_requests m @ [lora_trigger_request x]"
    by (simp add: m2 r1)
  show "m_triggerDisplays (multi_fetchTriggerWord net2 w' x ?m1)
          = js_set (js_set (m_triggerDisplays m) (slot_key w) (JStr (trim tw))) (slot_key w') (JStr (trim tw))"
    by (simp add: m2 d1)
qed

text \<open>
  C5. For the empty id and for \<open>"None"\<close>, \<open>fetchTriggerWord\<close> (of the Power LoRA widget
  and of the Multi LoRA widget) sets the display entry to the empty string and is done:
  whatever the network would answer and whatever the cache holds, no request is sent
  and the cache is neither read nor written.
\<close>

theorem fetchTriggerWord_sentinel_no_request:
  "fetchTriggerWord net index [] node
     = updateTriggerDisplay index (JStr []) (node\<lparr>triggerDisplays := (triggerDisplays node)(index \<mapsto> JStr [])\<rparr>)
   \<and> fetchTriggerWord net index ''None'' node
     = updateTriggerDisplay index (JStr []) (node\<lparr>triggerDisplays := (triggerDisplays node)(index \<mapsto> JStr [])\<rparr>)
   \<and> requests (fetchTriggerWord net index [] node) = requests node
   \<and> requests (fetchTriggerWord net index ''None'' node) = requests node
   \<and> triggerDisplays (fetchTriggerWord net index [] node) index = Some (JStr [])
   \<and> triggerDisplays (fetchTriggerWord net index ''None'' node) index = Some (JStr [])
   \<and> fetchTriggerWord net index [] (node\<lparr>triggerCache := cache\<rparr>)
       = (fetchTriggerWord net index [] node)\<lparr>triggerCache := cache\<rparr>
   \<and> fetchTriggerWord net index ''None'' (node\<lparr>triggerCache := cache\<rparr>)
       = (fetchTriggerWord net index ''None'' node)\<lparr>triggerCache := cache\<rparr>
   \<and> multi_fetchTriggerWord mnet widgetName [] mnode
       = mnode\<lparr>m_triggerDisplays := js_set (m_triggerDisplays mnode) (slot_key widgetName) (JStr []),
               m_dirty := True\<rparr>
   \<and> multi_fetchTriggerWord mnet widgetName ''None'' mnode
       = mnode\<lparr>m_triggerDisplays := js_set (m_triggerDisplays mnode) (slot_key widgetName) (JStr []),
               m_dirty := True\<rparr>"
  by (simp add: fetchTriggerWord_sentinel multi_sentinel updateTriggerDisplay_def)

text \<open>
  C4 (amended). Let \<open>x\<close> be an id other than \<open>""\<close> and \<open>"None"\<close> for which the cache
  check \<open>triggerCache[x]\<close> fails, and let the request of the first call be answered
  with an \<open>ok\<close> response whose \<open>trigger_word\<close>, trimmed, is not empty. Then two
  calls of \<open>fetchTriggerWord\<close> for \<open>x\<close>, the second after the first has completed, send
  exactly one request: the first call writes the trimmed word into the cache and the
  display, the second takes it from the cache. This holds for the Power LoRA widget and
  for the Multi LoRA widget.
\<close>

theorem fetchTriggerWord_twice_one_request:
  assumes "x \<noteq> []" and "x \<noteq> ''None''"
    and "\<not> truthy (js_get (triggerCache node) JStr x)"
    and "\<not> truthy (js_get (m_triggerCache mnode) JStr x)"
    and "net1 (lora_trigger_request x) = Replied True (Some tw)"
    and "trim tw \<noteq> []"
  shows "requests (fetchTriggerWord net2 j x (fetchTriggerWord net1 i x node))
           = requests node @ [lora_trigger_request x]
       \<and> triggerCache (fetchTriggerWord net1 i x node) x = Some (trim tw)
       \<and> triggerDisplays (fetchTriggerWord net1 i x node) i = Some (JStr (trim tw))
       \<and> triggerDisplays (fetchTriggerWord net2 j x (fetchTriggerWord net1 i x node)) j
           = Some (JStr (trim tw))
       \<and> m_requests (multi_fetchTriggerWord net2 w' x (multi_fetchTriggerWord net1 w x mnode))
           = m_requests mnode @ [lora_trigger_request x]
       \<and> m_triggerCache (multi_fetchTriggerWord net1 w x mnode) x = Some (trim tw)
       \<and> m_triggerDisplays (multi_fetchTriggerWord net1 w x mnode)
           = js_set (m_triggerDisplays mnode) (slot_key w) (JStr (trim tw))
       \<and> m_triggerDisplays (multi_fetchTriggerWord net2 w' x (multi_fetchTriggerWord net1 w x mnode))
           = js_set (js_set (m_triggerDisplays mnode) (slot_key w) (JStr (trim tw)))
               (slot_key w') (JStr (trim tw))"
  using power_twice [where x = x and n = node and ?net1.0 = net1 and tw = tw, OF assms(1,2,3,5,6)]
        multi_twice [where x = x and m = mnode and ?net1.0 = net1 and tw = tw, OF assms(1,2,4,5,6)]
  by simp

lemma trim_sample: "trim '' neon glow '' = ''neon glow''"
  by (simp add: trim_def is_whitespace_def)

lemma slot_key_samples: "slot_key ''lora_1'' = ''1''" "slot_key ''lora_2'' = ''2''"
  by (simp_all add: slot_key_def)

theorem fetchTriggerWord_twice_one_request_witness:
  "''a.safetensors'' \<noteq> [] \<and> ''a.safetensors'' \<noteq> ''None''
   \<and> \<not> truthy (js_get (triggerCache (created None)) JStr ''a.safetensors'')
   \<and> \<not> truthy (js_get (m_triggerCache multi_created) JStr ''a.safetensors'')
   \<and> sample_trigger_network (lora_trigger_request ''a.safetensors'') = Replied True (Some '' neon glow '')
   \<and> trim '' neon glow '' \<noteq> []
   \<and> requests (fetchTriggerWord sample_trigger_network 1 ''a.safetensors''
                 (fetchTriggerWord sample_trigger_network 0 ''a.safetensors'' (created None)))
       = [lora_trigger_request ''a.safetensors'']
   \<and> triggerCache (fetchTriggerWord sample_trigger_network 0 ''a.safetensors'' (created None)) ''a.safetensors''
       = Some ''neon glow''
   \<and> m_requests (multi_fetchTriggerWord sample_trigger_network ''lora_2'' ''a.safetensors''
                 (multi_fetchTriggerWord sample_trigger_network ''lora_1'' ''a.safetensors'' multi_created))
       = [lora_trigger_request ''a.safetensors'']"
proof -
  have h1: "''a.safetensors'' \<noteq> []" and h2: "''a.safetensors'' \<noteq> ''None''" by simp_all
  have h3: "\<not> truthy (js_get (triggerCache (created None)) JStr ''a.safetensors'')"
    by (simp add: js_get_def created_def Object_prototype_names_def)
  have h4: "\<not> truthy (js_get (m_triggerCache multi_created) JStr ''a.safetensors'')"
    by (simp add: js_get_def multi_created_def Object_prototype_names_def)
  have h5: "sample_trigger_network (lora_trigger_request ''a.safetensors'') = Replied True (Some '' neon glow '')"
    by (simp add: sample_trigger_network_def)
  have h6: "trim '' neon glow '' \<noteq> []" by (simp add: trim_sample)
  have r0: "requests (created None) = []" "m_requests multi_created = []"
    by (simp_all add: created_def multi_created_def)
  from fetchTriggerWord_twice_one_request
         [where x = "''a.safetensors''" and node = "created None" and mnode = multi_created
            and ?net1.0 = sample_trigger_network and tw = "'' neon glow ''"
            and ?net2.0 = sample_trigger_network and j = 1 and i = 0
            and w' = "''lora_2''" and w = "''lora_1''", OF h1 h2 h3 h4 h5 h6]
       h1 h2 h3 h4 h5 h6 r0
  show ?thesis by (simp add: trim_sample)
qed

text \<open>As the claim is stated it fails: for an id the backend has no trigger word for,
  nothing is cached and both calls send a request; for \<open>"None"\<close> neither does.\<close>

theorem fetchTriggerWord_twice_counterexample:
  "requests (fetchTriggerWord sample_trigger_network 0 ''b.safetensors''
              (fetchTriggerWord sample_trigger_network 0 ''b.safetensors'' (created None)))
     = [lora_trigger_request ''b.safetensors'', lora_trigger_request ''b.safetensors'']
   \<and> requests (fetchTriggerWord sample_trigger_network 0 ''None''
              (fetchTriggerWord sample_trigger_network 0 ''None'' (created None)))
     = []"
  by (simp add: fetchTriggerWord_def fetchTriggerWord_begin_def fetchTriggerWord_resume_def
        sample_trigger_network_def created_def js_get_def Object_prototype_names_def
        lora_trigger_request_def updateTriggerDisplay_def)

section \<open>Properties of the folder lookup\<close>

lemma js_strings_truthy [simp]: "truthy (js_strings xs)"
  by (simp add: js_strings_def)

lemma fetchLorasInFolder_hit:
  "truthy (js_get (loraCache st) js_strings folder) \<Longrightarrow>
   fetchLorasInFolder net folder st = (js_get (loraCache st) js_strings folder, st)"
  by (simp add: fetchLorasInFolder_def)

lemma fetchLorasInFolder_failed:
  "\<not> truthy (js_get (loraCache st) js_strings folder) \<Longrightarrow>
   net (loras_in_folder_request folder) = Failed msg \<Longrightarrow>
   fetchLorasInFolder net folder st =
     (JArr [], st\<lparr>f_requests := f_requests st @ [loras_in_folder_request folder],
                  f_console := f_console st @ [''Error fetching loras for folder:'']\<rparr>)"
  by (simp add: fetchLorasInFolder_def)

text \<open>
  C3 (amended). Let the cache check \<open>loraCache[folder]\<close> fail and the request be
  answered with a body. Then \<open>fetchLorasInFolder\<close> writes the listing into the cache
  and returns it, also when it is empty (an absent \<open>loras\<close> field counts as the empty
  listing): a later call for the same folder returns the cached listing and sends no
  request.
\<close>

theorem fetchLorasInFolder_caches_every_listing:
  assumes "\<not> truthy (js_get (loraCache st) js_strings folder)"
    and "net1 (loras_in_folder_request folder) = Replied ok loras"
  shows "loraCache (snd (fetchLorasInFolder net1 folder st)) folder
           = Some (case loras of Some xs \<Rightarrow> xs | None \<Rightarrow> [])
       \<and> fst (fetchLorasInFolder net1 folder st)
           = js_strings (case loras of Some xs \<Rightarrow> xs | None \<Rightarrow> [])
       \<and> f_requests (snd (fetchLorasInFolder net1 folder st))
           = f_requests st @ [loras_in_folder_request folder]
       \<and> fetchLorasInFolder net2 folder (snd (fetchLorasInFolder net1 folder st))
           = (js_strings (case loras of Some xs \<Rightarrow> xs | None \<Rightarrow> []),
              snd (fetchLorasInFolder net1 folder st))"
proof -
  let ?listing = "case loras of Some xs \<Rightarrow> xs | None \<Rightarrow> []"
  let ?st1 = "st\<lparr>f_requests := f_requests st @ [loras_in_folder_request folder],
                 loraCache := (loraCache st)(folder \<mapsto> ?listing)\<rparr>"
  have np: "folder \<noteq> ''__proto__''" using assms(1) by (rule cold_not_proto)
  have first: "fetchLorasInFolder net1 folder st = (js_strings ?listing, ?st1)"
    using assms np by (simp add: fetchLorasInFolder_def js_set_def js_get_def Let_def)
  have cached: "js_get (loraCache ?st1) js_strings folder = js_strings ?listing"
    using np by (simp add: js_get_def)
  have second: "fetchLorasInFolder net2 folder ?st1 = (js_strings ?listing, ?st1)"
    using fetchLorasInFolder_hit [of ?st1 folder net2] cached by simp
  show ?thesis by (simp add: first second)
qed

theorem fetchLorasInFolder_caches_every_listing_witness:
  "\<not> truthy (js_get (loraCache folder_loader_start) js_strings ''styles'')
   \<and> sample_folder_network (loras_in_folder_request ''styles'') = Replied True (Some [''styles/a.safetensors''])
   \<and> loraCache (snd (fetchLorasInFolder sample_folder_network ''styles'' folder_loader_start)) ''styles''
       = Some [''styles/a.safetensors'']
   \<and> f_requests (snd (fetchLorasInFolder sample_folder_network ''styles''
         (snd (fetchLorasInFolder sample_folder_network ''styles'' folder_loader_start))))
       = [loras_in_folder_request ''styles'']"
proof -
  have h1: "\<not> truthy (js_get (loraCache folder_loader_start) js_strings ''styles'')"
    by (simp add: js_get_def folder_loader_start_def Object_prototype_names_def)
  have h2: "sample_folder_network (loras_in_folder_request ''styles'')
              = Replied True (Some [''styles/a.safetensors''])"
    by (simp add: sample_folder_network_def)
  have r0: "f_requests folder_loader_start = []"
    by (simp add: folder_loader_start_def)
  from fetchLorasInFolder_caches_every_listing
         [where st = folder_loader_start and folder = "''styles''" and ?net1.0 = sample_folder_network
            and ok = True and loras = "Some [''styles/a.safetensors'']"
            and ?net2.0 = sample_folder_network, OF h1 h2] h1 h2 r0
  show ?thesis by simp
qed

text \<open>As the claim is stated it fails: the empty listing of the folder \<open>empty\<close> is
  written into the cache, and the second call sends no request.\<close>

theorem fetchLorasInFolder_empty_counterexample:
  "fst (fetchLorasInFolder sample_folder_network ''empty'' folder_loader_start) = JArr []
   \<and> loraCache (snd (fetchLorasInFolder sample_folder_network ''empty'' folder_loader_start)) ''empty''
       = Some []
   \<and> f_requests (snd (fetchLorasInFolder sample_folder_network ''empty'' folder_loader_start))
       = [loras_in_folder_request ''empty'']
   \<and> f_requests (snd (fetchLorasInFolder sample_folder_network ''empty''
         (snd (fetchLorasInFolder sample_folder_network ''empty'' folder_loader_start))))
       = [loras_in_folder_request ''empty'']"
  by (simp add: fetchLorasInFolder_def sample_folder_network_def folder_loader_start_def
        js_get_def js_set_def Object_prototype_names_def loras_in_folder_request_def js_strings_def)

section \<open>Properties of the dropdown\<close>

lemma js_includes_sublist: "js_includes s t \<longleftrightarrow> sublist t s"
  by (induction s) (auto simp: sublist_Cons_right)

lemma passes_sublist: "passes (toLowerCase flt) lora \<longleftrightarrow> sublist (toLowerCase flt) (toLowerCase lora)"
  by (simp add: passes_def js_includes_sublist)

lemma renderItems_tl:
  "tl (renderItems node flt) =
     map LoraItem (take 50 (filter (passes (toLowerCase flt)) (loraList node)))
     @ (if 50 < length (filter (passes (toLowerCase flt)) (loraList node))
        then [MoreItem (length (filter (passes (toLowerCase flt)) (loraList node)) - 50)] else [])"
  by (simp add: renderItems_def Let_def)

text \<open>
  C7 (amended). After the \<open>None\<close> item, the dropdown lists the first 50 of the
  candidates whose lowercase form contains the lowercase filter as a substring, in the
  order of the candidate list, and then, when more than 50 match, one note with the
  number of matches left out. So when at most 50 candidates match, the list is exactly
  the matching candidates; the filter \<open>abc\<close> on \<open>abcd\<close>, \<open>xyz\<close>, \<open>ABCX\<close> gives
  \<open>abcd\<close>, \<open>ABCX\<close>.
\<close>

theorem renderItems_filters:
  "tl (renderItems node flt) =
     map LoraItem (take 50 (filter (\<lambda>lora. sublist (toLowerCase flt) (toLowerCase lora)) (loraList node)))
     @ (if 50 < length (filter (\<lambda>lora. sublist (toLowerCase flt) (toLowerCase lora)) (loraList node))
        then [MoreItem (length (filter (\<lambda>lora. sublist (toLowerCase flt) (toLowerCase lora)) (loraList node)) - 50)]
        else [])
   \<and> (length (filter (\<lambda>lora. sublist (toLowerCase flt) (toLowerCase lora)) (loraList node)) \<le> 50 \<longrightarrow>
        tl (renderItems node flt)
          = map LoraItem (filter (\<lambda>lora. sublist (toLowerCase flt) (toLowerCase lora)) (loraList node)))
   \<and> renderItems (node\<lparr>loraList := [''abcd'', ''xyz'', ''ABCX'']\<rparr>) ''abc''
        = [NoneItem, LoraItem ''abcd'', LoraItem ''ABCX'']"
proof -
  have same: "filter (passes (toLowerCase flt)) (loraList node)
               = filter (\<lambda>lora. sublist (toLowerCase flt) (toLowerCase lora)) (loraList node)"
    by (rule filter_cong) (simp_all add: passes_sublist)
  have "filter (passes (toLowerCase ''abc'')) [''abcd'', ''xyz'', ''ABCX''] = [''abcd'', ''ABCX'']"
    by code_simp
  then have ex: "renderItems (node\<lparr>loraList := [''abcd'', ''xyz'', ''ABCX'']\<rparr>) ''abc''
              = [NoneItem, LoraItem ''abcd'', LoraItem ''ABCX'']"
    by (simp add: renderItems_def Let_def)
  show ?thesis
    using renderItems_tl [of node flt] ex by (simp add: same)
qed

theorem renderItems_filters_witness:
  "length (filter (\<lambda>lora. sublist (toLowerCase ''abc'') (toLowerCase lora))
             (loraList ((created None)\<lparr>loraList := [''abcd'', ''xyz'', ''ABCX'']\<rparr>))) \<le> 50
   \<and> tl (renderItems ((created None)\<lparr>loraList := [''abcd'', ''xyz'', ''ABCX'']\<rparr>) ''abc'')
       = [LoraItem ''abcd'', LoraItem ''ABCX'']"
proof -
  have l: "length (filter (\<lambda>lora. sublist (toLowerCase ''abc'') (toLowerCase lora))
             (loraList ((created None)\<lparr>loraList := [''abcd'', ''xyz'', ''ABCX'']\<rparr>))) \<le> 50"
    by (rule order_trans [OF length_filter_le]) simp
  from renderItems_filters [of "(created None)\<lparr>loraList := [''abcd'', ''xyz'', ''ABCX'']\<rparr>" "''abc''"] l
  show ?thesis by simp
qed

text \<open>As the claim is stated it fails: of 51 candidates that all match the empty
  filter, 50 are listed, followed by the note.\<close>

theorem renderItems_cap_counterexample:
  "filter (passes (toLowerCase [])) (replicate 51 ''a'') = replicate 51 ''a''
   \<and> tl (renderItems ((created None)\<lparr>loraList := replicate 51 ''a''\<rparr>) [])
       = replicate 50 (LoraItem ''a'') @ [MoreItem 1]
   \<and> tl (renderItems ((created None)\<lparr>loraList := replicate 51 ''a''\<rparr>) [])
       \<noteq> map LoraItem (replicate 51 ''a'')"
  by code_simp

section \<open>Properties of the prompt search\<close>

lemma all_dropWhile_iff: "(\<forall>x\<in>set (dropWhile P xs). P x) \<longleftrightarrow> (\<forall>x\<in>set xs. P x)"
proof
  assume a: "\<forall>x\<in>set (dropWhile P xs). P x"
  have "dropWhile P xs = []"
  proof (rule ccontr)
    assume ne: "dropWhile P xs \<noteq> []"
    then have "\<not> P (hd (dropWhile P xs))" by (rule hd_dropWhile)
    moreover have "hd (dropWhile P xs) \<in> set (dropWhile P xs)" using ne by simp
    ultimately show False using a by blast
  qed
  then show "\<forall>x\<in>set xs. P x" by (simp add: dropWhile_eq_Nil_conv)
next
  assume "\<forall>x\<in>set xs. P x"
  then show "\<forall>x\<in>set (dropWhile P xs). P x" by (auto dest: set_dropWhileD)
qed

lemma trim_empty_iff: "trim q = [] \<longleftrightarrow> (\<forall>c\<in>set q. is_whitespace c)"
  by (simp add: trim_def dropWhile_eq_Nil_conv all_dropWhile_iff)

text \<open>
  C8. For a query that is empty or consists of whitespace only, \<open>performSearch\<close> sends
  no request, whatever the network would answer, and shows the dialog titled
  \<open>Please enter a search term\<close> with no results.
\<close>

theorem performSearch_empty_query:
  assumes "\<forall>c\<in>set query. is_whitespace c"
  shows "performSearch net query category ui = ui\<lparr>dialog := Some (''Please enter a search term'', [])\<rparr>
       \<and> s_requests (performSearch net query category ui) = s_requests ui"
  using assms by (simp add: performSearch_def showResultsDialog_def trim_empty_iff [symmetric])

theorem performSearch_empty_query_witness:
  "is_whitespace (CHR '' '') \<and> is_whitespace (CHR 0x09)
   \<and> performSearch sample_search_network [CHR '' '', CHR 0x09] ''any'' search_ui_start
       = search_ui_start\<lparr>dialog := Some (''Please enter a search term'', [])\<rparr>
   \<and> s_requests (performSearch sample_search_network [CHR '' '', CHR 0x09] ''any'' search_ui_start) = []"
proof -
  have w: "\<forall>c\<in>set [CHR '' '', CHR 0x09]. is_whitespace c"
    by (simp add: is_whitespace_def)
  from performSearch_empty_query [of "[CHR '' '', CHR 0x09]" sample_search_network "''any''" search_ui_start, OF w] w
  show ?thesis by (simp add: search_ui_start_def)
qed

section \<open>Properties of the rows\<close>

lemma row_prop_strength_update:
  "row_prop (JObj (AList.update ''strength'' v kvs)) ''strength'' = Inr v"
  by (simp add: row_prop_def js_get_def update_conv')

lemma loraRows_syncToWidget [simp]: "loraRows (syncToWidget f node) = loraRows node"
  by (simp add: syncToWidget_def split: option.splits)

text \<open>
  C9. Entering \<open>s\<close> in the strength field of a row stores \<open>parseFloat(s)\<close> in the row
  when that is a number other than zero, and 1 when it is \<open>NaN\<close> or zero: the stored
  strength is never zero.
\<close>

theorem strength_onchange_stores:
  assumes "loraRows node = JArr rows" and "index < length rows" and "rows ! index = JObj kvs"
  shows "\<exists>node'. strength_onchange parseFloat JSON_stringify index s node = Inr node'
           \<and> (parseFloat s \<noteq> NaN \<and> parseFloat s \<noteq> Num 0 \<longrightarrow>
                 row_strength node' index = Inr (JNum (parseFloat s)))
           \<and> (parseFloat s = NaN \<or> parseFloat s = Num 0 \<longrightarrow>
                 row_strength node' index = Inr (JNum (Num 1)))
           \<and> row_strength node' index \<noteq> Inr (JNum (Num 0))"
proof -
  let ?v = "js_or (JNum (parseFloat s)) (JNum (Num 1))"
  let ?node' = "syncToWidget JSON_stringify
                  (node\<lparr>loraRows := JArr (rows[index := JObj (AList.update ''strength'' ?v kvs)])\<rparr>)"
  have run: "strength_onchange parseFloat JSON_stringify index s node = Inr ?node'"
    using assms by (simp add: strength_onchange_def)
  have stored: "row_strength ?node' index = Inr ?v"
    using assms(2) by (simp add: row_strength_def row_prop_strength_update)
  have v: "?v = JNum (if parseFloat s = NaN \<or> parseFloat s = Num 0 then Num 1 else parseFloat s)"
    by (simp add: js_or_def)
  show ?thesis
    using run stored v by auto
qed

theorem strength_onchange_stores_witness:
  "loraRows ((created None)\<lparr>loraRows := JArr [new_row]\<rparr>) = JArr [new_row]
   \<and> 0 < length [new_row]
   \<and> [new_row] ! 0 = JObj [(''lora'', JStr []), (''strength'', JNum (Num 1)), (''on'', JBool True)]
   \<and> sample_parseFloat ''0'' = Num 0
   \<and> (\<exists>node'. strength_onchange sample_parseFloat sample_JSON_stringify 0 ''0''
                  ((created None)\<lparr>loraRows := JArr [new_row]\<rparr>) = Inr node'
         \<and> row_strength node' 0 = Inr (JNum (Num 1)))"
proof -
  have h1: "loraRows ((created None)\<lparr>loraRows := JArr [new_row]\<rparr>) = JArr [new_row]" by simp
  have h2: "0 < length [new_row]" by simp
  have h3: "[new_row] ! 0 = JObj [(''lora'', JStr []), (''strength'', JNum (Num 1)), (''on'', JBool True)]"
    by (simp add: new_row_def)
  have z: "sample_parseFloat ''0'' = Num 0" by (simp add: sample_parseFloat_def)
  from strength_onchange_stores
         [where node = "(created None)\<lparr>loraRows := JArr [new_row]\<rparr>" and rows = "[new_row]" and index = 0
            and parseFloat = sample_parseFloat and JSON_stringify = sample_JSON_stringify and s = "''0''",
          OF h1 h2 h3] z h1 h2 h3
  show ?thesis by auto
qed

text \<open>Deleting and adding, in general. Rendering rows touches the display entries of
  the indices it renders only, so after the row at \<open>i\<close> is deleted and a row is added,
  the entry of the new row is the one the last row had before, unless the deleted row
  was the last one; and the badge of the new row shows that entry.\<close>

lemma fire_frame:
  "loraRows (fetchTriggerWord_fire i x n) = loraRows n"
  "widgets (fetchTriggerWord_fire i x n) = widgets n"
  "length (rowEls (fetchTriggerWord_fire i x n)) = length (rowEls n)"
  "j \<noteq> i \<Longrightarrow> triggerDisplays (fetchTriggerWord_fire i x n) j = triggerDisplays n j"
  by (simp_all add: fetchTriggerWord_fire_def fetchTriggerWord_begin_def Let_def)

lemma renderRows_from_frame:
  "renderRows_from k rows n = Inr n' \<Longrightarrow>
     loraRows n' = loraRows n \<and> widgets n' = widgets n
     \<and> length (rowEls n') = length (rowEls n) + length rows
     \<and> (\<forall>j. j < k \<or> k + length rows \<le> j \<longrightarrow> triggerDisplays n' j = triggerDisplays n j)"
proof (induction rows arbitrary: k n)
  case Nil
  then show ?case by simp
next
  case (Cons row rows)
  from Cons.prems obtain el where el: "createRowElement k row n = Inr el"
    by (auto split: sum.splits)
  from Cons.prems el obtain lora where lora: "row_prop row ''lora'' = Inr lora"
    by (auto split: sum.splits simp: Let_def)
  let ?n1 = "n\<lparr>rowEls := rowEls n @ [el]\<rparr>"
  show ?case
  proof (cases "truthy lora \<and> lora \<noteq> JStr ''None''")
    case True
    with Cons.prems el lora obtain x where x: "lora = JStr x"
      by (cases lora) (auto simp: Let_def)
    with Cons.prems el lora True
    have "renderRows_from (Suc k) rows (fetchTriggerWord_fire k x ?n1) = Inr n'"
      by (simp add: Let_def)
    from Cons.IH [OF this] show ?thesis
      by (auto simp: fire_frame)
  next
    case False
    with Cons.prems el lora
    have "renderRows_from (Suc k) rows ?n1 = Inr n'"
      by (auto simp: Let_def)
    from Cons.IH [OF this] show ?thesis
      by auto
  qed
qed


lemma syncToWidget_frame [simp]:
  "triggerDisplays (syncToWidget f n) = triggerDisplays n"
  "rowEls (syncToWidget f n) = rowEls n"
  by (simp_all add: syncToWidget_def split: option.splits)

lemma renderRows_from_append:
  "renderRows_from k (rows @ [row]) n
     = and_then (renderRows_from k rows n) (renderRows_from (k + length rows) [row])"
proof (induction rows arbitrary: k n)
  case Nil
  show ?case by (simp add: and_then_def)
next
  case (Cons r rows)
  show ?case
    by (simp add: Cons.IH and_then_def Let_def split: sum.splits jsval.splits)
qed

lemma renderRows_from_new_row:
  "renderRows_from m [new_row] n =
     Inr (n\<lparr>rowEls := rowEls n @
            [\<lparr>className = ''power-lora-row'',
              select_text = JStr ''Select LoRA...'',
              strength_value = JNum (Num 1),
              trigger_text = js_or (case triggerDisplays n m of Some d \<Rightarrow> d | None \<Rightarrow> JUndefined) (JStr []),
              trigger_shown = truthy (case triggerDisplays n m of Some d \<Rightarrow> d | None \<Rightarrow> JUndefined)\<rparr>]\<rparr>)"
  by (simp add: new_row_def createRowElement_def row_prop_def js_get_def js_or_def Let_def)

lemma updateNodeSize_frame:
  "updateNodeSize n = Inr n' \<Longrightarrow>
     loraRows n' = loraRows n \<and> triggerDisplays n' = triggerDisplays n \<and> rowEls n' = rowEls n"
  by (auto simp: updateNodeSize_def split: jsval.splits)

lemma deleteBtn_onclick_frame:
  assumes "loraRows n = JArr rows" and "deleteBtn_onclick S i n = Inr n1"
  shows "loraRows n1 = JArr (take i rows @ drop (Suc i) rows)"
    and "length (take i rows @ drop (Suc i) rows) \<le> j \<Longrightarrow>
           triggerDisplays n1 j = ((triggerDisplays n)(i := None)) j"
proof -
  let ?n0 = "syncToWidget S (n\<lparr>loraRows := JArr (take i rows @ drop (Suc i) rows),
                                triggerDisplays := (triggerDisplays n)(i := None)\<rparr>)"
  from assms obtain na where na: "renderRows ?n0 = Inr na" and n1: "updateNodeSize na = Inr n1"
    by (auto simp: deleteBtn_onclick_def split: sum.splits)
  from na have "renderRows_from 0 (take i rows @ drop (Suc i) rows) (?n0\<lparr>rowEls := []\<rparr>) = Inr na"
    by (simp add: renderRows_def)
  from renderRows_from_frame [OF this] updateNodeSize_frame [OF n1]
  show "loraRows n1 = JArr (take i rows @ drop (Suc i) rows)"
    and "length (take i rows @ drop (Suc i) rows) \<le> j \<Longrightarrow>
           triggerDisplays n1 j = ((triggerDisplays n)(i := None)) j"
    by auto
qed

lemma addBtn_onclick_new_row:
  assumes "loraRows n = JArr rows" and "addBtn_onclick S n = Inr n2"
  shows "loraRows n2 = JArr (rows @ [new_row])"
    and "triggerDisplays n2 (length rows) = triggerDisplays n (length rows)"
    and "rowEls n2 \<noteq> []"
    and "last (badges n2) =
           (js_or (case triggerDisplays n (length rows) of Some d \<Rightarrow> d | None \<Rightarrow> JUndefined) (JStr []),
            truthy (case triggerDisplays n (length rows) of Some d \<Rightarrow> d | None \<Rightarrow> JUndefined))"
proof -
  let ?n0 = "syncToWidget S (n\<lparr>loraRows := JArr (rows @ [new_row])\<rparr>)"
  from assms obtain na where na: "renderRows ?n0 = Inr na" and n2: "updateNodeSize na = Inr n2"
    by (auto simp: addBtn_onclick_def split: sum.splits)
  from na have "and_then (renderRows_from 0 rows (?n0\<lparr>rowEls := []\<rparr>)) (renderRows_from (length rows) [new_row]) = Inr na"
    by (simp add: renderRows_def renderRows_from_append)
  then obtain nm where nm: "renderRows_from 0 rows (?n0\<lparr>rowEls := []\<rparr>) = Inr nm"
    and last: "renderRows_from (length rows) [new_row] nm = Inr na"
    by (auto simp: and_then_def split: sum.splits)
  from renderRows_from_frame [OF nm]
  have fm: "loraRows nm = JArr (rows @ [new_row])"
    "triggerDisplays nm (length rows) = triggerDisplays n (length rows)"
    by auto
  from last have na_eq: "na = nm\<lparr>rowEls := rowEls nm @
            [\<lparr>className = ''power-lora-row'',
              select_text = JStr ''Select LoRA...'',
              strength_value = JNum (Num 1),
              trigger_text = js_or (case triggerDisplays nm (length rows) of Some d \<Rightarrow> d | None \<Rightarrow> JUndefined) (JStr []),
              trigger_shown = truthy (case triggerDisplays nm (length rows) of Some d \<Rightarrow> d | None \<Rightarrow> JUndefined)\<rparr>]\<rparr>"
    using renderRows_from_new_row [of "length rows" nm] by (simp del: renderRows_from.simps)
  from updateNodeSize_frame [OF n2] na_eq fm
  show "loraRows n2 = JArr (rows @ [new_row])"
    and "triggerDisplays n2 (length rows) = triggerDisplays n (length rows)"
    and "rowEls n2 \<noteq> []"
    and "last (badges n2) =
           (js_or (case triggerDisplays n (length rows) of Some d \<Rightarrow> d | None \<Rightarrow> JUndefined) (JStr []),
            truthy (case triggerDisplays n (length rows) of Some d \<Rightarrow> d | None \<Rightarrow> JUndefined))"
    by (simp_all add: badges_def)
qed

lemma removeRow_addRow_entry:
  assumes rows: "loraRows n = JArr rows" and i: "i < length rows"
    and del: "deleteBtn_onclick S i n = Inr n1" and add: "addBtn_onclick S n1 = Inr n2"
  shows "loraRows n2 = JArr (take i rows @ drop (Suc i) rows @ [new_row])"
    and "triggerDisplays n2 (length rows - 1)
           = (if Suc i = length rows then None else triggerDisplays n (length rows - 1))"
    and "last (badges n2) =
           (js_or (case triggerDisplays n2 (length rows - 1) of Some d \<Rightarrow> d | None \<Rightarrow> JUndefined) (JStr []),
            truthy (case triggerDisplays n2 (length rows - 1) of Some d \<Rightarrow> d | None \<Rightarrow> JUndefined))"
proof -
  let ?rows' = "take i rows @ drop (Suc i) rows"
  have len: "length ?rows' = length rows - 1" using i by simp
  from deleteBtn_onclick_frame [OF rows del]
  have r1: "loraRows n1 = JArr ?rows'"
    and d1: "triggerDisplays n1 (length ?rows') = ((triggerDisplays n)(i := None)) (length ?rows')"
    by simp_all
  from addBtn_onclick_new_row [OF r1 add]
  have r2: "loraRows n2 = JArr (?rows' @ [new_row])"
    and d2: "triggerDisplays n2 (length ?rows') = triggerDisplays n1 (length ?rows')"
    and b2: "last (badges n2) =
           (js_or (case triggerDisplays n1 (length ?rows') of Some d \<Rightarrow> d | None \<Rightarrow> JUndefined) (JStr []),
            truthy (case triggerDisplays n1 (length ?rows') of Some d \<Rightarrow> d | None \<Rightarrow> JUndefined))"
    by simp_all
  show "loraRows n2 = JArr (take i rows @ drop (Suc i) rows @ [new_row])"
    using r2 by simp
  show "triggerDisplays n2 (length rows - 1)
           = (if Suc i = length rows then None else triggerDisplays n (length rows - 1))"
    using d2 d1 len i by auto
  show "last (badges n2) =
           (js_or (case triggerDisplays n2 (length rows - 1) of Some d \<Rightarrow> d | None \<Rightarrow> JUndefined) (JStr []),
            truthy (case triggerDisplays n2 (length rows - 1) of Some d \<Rightarrow> d | None \<Rightarrow> JUndefined))"
    using b2 d2 len by simp
qed

text \<open>
  C2. The display entries are keyed by row index and \<open>splice\<close> moves the rows after
  the deleted one down, but the delete handler only deletes the entry of the deleted
  index. In the session with the rows \<open>a.safetensors\<close> (badge \<open>alpha\<close>) and
  \<open>b.safetensors\<close> (badge \<open>beta\<close>), deleting the first row and adding a row leaves the
  new row, at index 1, with the entry and the visible badge \<open>beta\<close> of the row that
  was at index 1 before.
\<close>

theorem removeRow_addRow_stale_trigger:
  "map_sum id (\<lambda>node. (triggerDisplays node 0, triggerDisplays node 1, badges node))
     (two_rows_session JSON_stringify)
     = Inr (Some (JStr ''alpha''), Some (JStr ''beta''), [(JStr ''alpha'', True), (JStr ''beta'', True)])
   \<and> map_sum id (\<lambda>node. (loraRows node, triggerDisplays node 1, badges node))
       (and_then (and_then (two_rows_session JSON_stringify) (deleteBtn_onclick JSON_stringify 0))
          (addBtn_onclick JSON_stringify))
     = Inr (JArr [JObj [(''lora'', JStr ''b.safetensors''), (''strength'', JNum (Num 1)), (''on'', JBool True)],
                  new_row],
            Some (JStr ''beta''),
            [(JStr ''beta'', True), (JStr ''beta'', True)])"
  by code_simp

end
